theory Spec2Isabelle
  imports Complex_Main
begin

section \<open>JavaScript values used by the code\<close>

text \<open>
  A \<open>number\<close> that carries a usage quantity is modelled as an exact decimal
  \<open>mantissa / 10 ^ scale\<close> (every finite double is such a decimal); \<open>NaN\<close> and the
  infinities are not quantities. The literal \<open>100.5\<close> is \<open>\<lparr>mantissa = 1005, scale = 1\<rparr>\<close>.
\<close>

record decimal =
  mantissa :: int
  scale :: nat

text \<open>\<open>Math.round(x)\<close> is \<open>floor(x + 0.5)\<close>: the nearest integer, a tie going up.\<close>

definition Math_round :: "decimal \<Rightarrow> int" where
  "Math_round q = (2 * mantissa q + 10 ^ scale q) div (2 * 10 ^ scale q)"

text \<open>\<open>Math.floor(ms / 1000)\<close> on an integral number of milliseconds.\<close>

definition Math_floor_div :: "int \<Rightarrow> int \<Rightarrow> int" where
  "Math_floor_div a b = a div b"

text \<open>
  A string is falsy exactly when it is \<open>undefined\<close> or empty: this is what
  \<open>a || b\<close> and \<open>!a\<close> test on a \<open>string | undefined\<close>.
\<close>

fun truthy :: "string option \<Rightarrow> bool" where
  "truthy None = False"
| "truthy (Some s) = (s \<noteq> [])"

text \<open>\<open>a ?? b\<close>: the right operand only when the left one is \<open>undefined\<close>.\<close>

fun nullish :: "'a option \<Rightarrow> 'a option \<Rightarrow> 'a option" where
  "nullish (Some a) b = Some a"
| "nullish None b = b"

subsection \<open>Dates\<close>

text \<open>
  Days from 1970-01-01 to the civil date \<open>y-m-d\<close> of the proleptic Gregorian
  calendar (the \<open>MakeDay\<close> of ECMAScript, for a month in 1..12).
\<close>

definition days_from_civil :: "int \<Rightarrow> nat \<Rightarrow> nat \<Rightarrow> int" where
  "days_from_civil y m d =
     (let y' = (if m \<le> 2 then y - 1 else y);
          era = y' div 400;
          yoe = y' - era * 400;
          mp = (if m > 2 then int m - 3 else int m + 9);
          doy = (153 * mp + 2) div 5 + int d - 1;
          doe = yoe * 365 + yoe div 4 - yoe div 100 + doy
      in era * 146097 + doe - 719468)"

definition is_leap :: "nat \<Rightarrow> bool" where
  "is_leap y = (y mod 4 = 0 \<and> (y mod 100 \<noteq> 0 \<or> y mod 400 = 0))"

definition days_in_month :: "nat \<Rightarrow> nat \<Rightarrow> nat" where
  "days_in_month y m =
     (if m = 2 then (if is_leap y then 29 else 28)
      else if m = 4 \<or> m = 6 \<or> m = 9 \<or> m = 11 then 30 else 31)"

definition digit_char :: "nat \<Rightarrow> char" where
  "digit_char n = ''0123456789'' ! (n mod 10)"

text \<open>The value of a decimal digit: its position in \<open>0123456789\<close>.\<close>

definition digit_val :: "char \<Rightarrow> nat option" where
  "digit_val c =
     (if c \<in> set ''0123456789''
      then Some (length (takeWhile (\<lambda>d. d \<noteq> c) ''0123456789''))
      else None)"

fun digits_val :: "string \<Rightarrow> nat \<Rightarrow> nat option" where
  "digits_val [] acc = Some acc"
| "digits_val (c # cs) acc =
     (case digit_val c of None \<Rightarrow> None | Some v \<Rightarrow> digits_val cs (10 * acc + v))"

text \<open>The three fields of a date-only string \<open>YYYY-MM-DD\<close>, when it has that shape.\<close>

fun parse_ymd :: "string \<Rightarrow> (nat \<times> nat \<times> nat) option" where
  "parse_ymd [y1, y2, y3, y4, s1, m1, m2, s2, d1, d2] =
     (if s1 = CHR ''-'' \<and> s2 = CHR ''-'' then
        (case (digits_val [y1, y2, y3, y4] 0, digits_val [m1, m2] 0, digits_val [d1, d2] 0) of
           (Some y, Some m, Some d) \<Rightarrow> Some (y, m, d)
         | _ \<Rightarrow> None)
      else None)"
| "parse_ymd _ = None"

text \<open>The time of day \<open>HH:mm:ss\<close> or \<open>HH:mm:ss.sss\<close>: hours, minutes, seconds, milliseconds.\<close>

fun parse_hms :: "string \<Rightarrow> (nat \<times> nat \<times> nat \<times> nat) option" where
  "parse_hms (h1 # h2 # c1 # m1 # m2 # c2 # s1 # s2 # millis) =
     (if c1 = CHR '':'' \<and> c2 = CHR '':'' then
        (case (digits_val [h1, h2] 0, digits_val [m1, m2] 0, digits_val [s1, s2] 0,
               case millis of
                 [] \<Rightarrow> Some 0
               | [p, f1, f2, f3] \<Rightarrow> if p = CHR ''.'' then digits_val [f1, f2, f3] 0 else None
               | _ \<Rightarrow> None) of
           (Some h, Some mi, Some sec, Some ms) \<Rightarrow> Some (h, mi, sec, ms)
         | _ \<Rightarrow> None)
      else None)"
| "parse_hms _ = None"

text \<open>
  The strings of the ECMAScript date-time string format that denote an instant without
  reference to the local time zone, as Node reads them, in milliseconds since the epoch:
  \<^item> the date-only form \<open>YYYY-MM-DD\<close> is midnight UTC of that day; the engine accepts a
    day of the month up to 31 in every month and counts on into the next month
    (\<open>2025-02-30\<close> is midnight UTC of 2025-03-02);
  \<^item> the forms \<open>YYYY-MM-DDTHH:mm:ssZ\<close> and \<open>YYYY-MM-DDTHH:mm:ss.sssZ\<close> are that time of
    that day, UTC.
\<close>

definition iso_utc :: "string \<Rightarrow> int option" where
  "iso_utc s =
     (case parse_ymd (take 10 s) of
        None \<Rightarrow> None
      | Some (y, m, d) \<Rightarrow>
          if drop 10 s = [] then
            (if 1 \<le> m \<and> m \<le> 12 \<and> 1 \<le> d \<and> d \<le> 31
             then Some (days_from_civil (int y) m d * 86400000)
             else None)
          else if hd (drop 10 s) = CHR ''T'' \<and> last s = CHR ''Z'' then
            (case parse_hms (butlast (drop 11 s)) of
               None \<Rightarrow> None
             | Some (h, mi, sec, ms) \<Rightarrow>
                 if 1 \<le> m \<and> m \<le> 12 \<and> 1 \<le> d \<and> d \<le> days_in_month y m \<and>
                    h \<le> 23 \<and> mi \<le> 59 \<and> sec \<le> 59
                 then Some (days_from_civil (int y) m d * 86400000
                            + int h * 3600000 + int mi * 60000 + int sec * 1000 + int ms)
                 else None)
          else None)"

text \<open>
  Every other string is read by rules that ECMAScript leaves to the engine (forms with a
  UTC offset, forms without one, which are local time, and the engine's own formats):
  \<open>date_heuristics\<close> stands for them, the time value they give, \<open>None\<close> for \<open>NaN\<close>.
\<close>

type_synonym date_heuristics = "string \<Rightarrow> int option"

text \<open>\<open>new Date(s).getTime()\<close>: milliseconds since the epoch, \<open>None\<close> for \<open>NaN\<close>.\<close>

definition Date_getTime :: "date_heuristics \<Rightarrow> string \<Rightarrow> int option" where
  "Date_getTime heur s = (case iso_utc s of Some ms \<Rightarrow> Some ms | None \<Rightarrow> heur s)"

text \<open>Zero-padded decimal fields, as \<open>toISOString\<close> writes them.\<close>

definition pad2 :: "nat \<Rightarrow> string" where
  "pad2 n = map digit_char [n div 10, n]"

definition pad3 :: "nat \<Rightarrow> string" where
  "pad3 n = map digit_char [n div 100, n div 10, n]"

definition pad4 :: "nat \<Rightarrow> string" where
  "pad4 n = map digit_char [n div 1000, n div 100, n div 10, n]"

subsection \<open>The calendar, by counting\<close>






section \<open>The billing driver (packages/stripe-driver/src/index.ts)\<close>

datatype StripeEnvironment = Live | Test

text \<open>A client of the provider's SDK is determined by the secret key it was built with.\<close>

datatype stripe_client = Stripe string

record driver =
  stripeLive :: stripe_client
  stripeTest :: "stripe_client option"

record driver_opts =
  liveKey :: "string option"
  testKey :: "string option"

record process_env =
  STRIPE_SECRET_KEY :: "string option"
  STRIPE_TEST_SECRET_KEY :: "string option"

definition opt_field :: "driver_opts option \<Rightarrow> (driver_opts \<Rightarrow> string option) \<Rightarrow> string option" where
  "opt_field opts f = (case opts of None \<Rightarrow> None | Some v \<Rightarrow> f v)"

definition resolved_liveKey :: "driver_opts option \<Rightarrow> process_env \<Rightarrow> string" where
  "resolved_liveKey opts penv =
     the (nullish (nullish (opt_field opts liveKey) (STRIPE_SECRET_KEY penv)) (Some []))"

definition resolved_testKey :: "driver_opts option \<Rightarrow> process_env \<Rightarrow> string" where
  "resolved_testKey opts penv =
     the (nullish (nullish (opt_field opts testKey) (STRIPE_TEST_SECRET_KEY penv)) (Some []))"

definition new_driver :: "driver_opts option \<Rightarrow> process_env \<Rightarrow> driver" where
  "new_driver opts penv =
     (let lk = resolved_liveKey opts penv;
          tk = resolved_testKey opts penv
      in \<lparr> stripeLive = Stripe lk,
           stripeTest = (if tk \<noteq> [] then Some (Stripe tk) else None) \<rparr>)"

text \<open>
  What a driver call can fail with: the configuration error thrown by
  \<open>clientForMode\<close>, or an error thrown by the SDK, of which the code reads
  \<open>statusCode\<close> and \<open>status\<close>.
\<close>

record api_error =
  statusCode :: "nat option"
  status :: "nat option"

datatype driver_error =
    NotConfigured string
  | ApiError api_error

definition clientForMode :: "driver \<Rightarrow> StripeEnvironment \<Rightarrow> driver_error + stripe_client" where
  "clientForMode drv mode =
     (if mode = Test then
        (case stripeTest drv of
           None \<Rightarrow> Inl (NotConfigured ''Stripe test client not configured (STRIPE_TEST_SECRET_KEY missing)'')
         | Some c \<Rightarrow> Inr c)
      else Inr (stripeLive drv))"

subsection \<open>Requests sent to the provider\<close>

record request_options =
  opt_idempotencyKey :: "string option"
  opt_stripeAccount :: "string option"

record usage_record_body =
  ur_quantity :: int
  ur_timestamp :: "int option"
  ur_action :: string

datatype api_call =
    CreateUsageRecord string usage_record_body
  | RetrieveItem string
  | ListUsageRecordSummaries string nat "string option"
  | CreateTestClock int "string option"
  | AdvanceTestClock string int

record sent_request =
  req_client :: stripe_client
  req_call :: api_call
  req_options :: request_options

text \<open>What a driver call does, in order: requests sent and back-off sleeps (in ms).\<close>

datatype effect = Sent sent_request | Sleep nat

record UsageRecordSummary =
  urs_id :: string
  total_usage :: "int option"

record summary_page =
  page_data :: "UsageRecordSummary list"
  has_more :: bool

text \<open>
  The provider behind the SDK: each endpoint answers a request in a state \<open>'w\<close> of
  the outside world with a value or a thrown error, and a new state.
\<close>

record 'w stripe_sdk =
  createUsageRecord :: "'w \<Rightarrow> sent_request \<Rightarrow> (api_error + string) \<times> 'w"
  retrieve :: "'w \<Rightarrow> sent_request \<Rightarrow> (api_error + unit) \<times> 'w"
  listUsageRecordSummaries :: "'w \<Rightarrow> sent_request \<Rightarrow> (api_error + summary_page) \<times> 'w"
  testClocks :: "'w \<Rightarrow> sent_request \<Rightarrow> (api_error + string) \<times> 'w"

definition account_header :: "string \<Rightarrow> string option" where
  "account_header stripeAccount = (if stripeAccount \<noteq> ''default'' then Some stripeAccount else None)"

subsection \<open>recordUsage\<close>

text \<open>The source declares \<open>periodStart: string; // YYYY-MM-DD\<close>: the type admits any string.\<close>

record RecordUsageParams =
  mode :: StripeEnvironment
  stripeAccount :: string
  subscriptionItemId :: string
  quantity :: decimal
  periodStart :: string
  idempotencyKey :: string

text \<open>
  The request of \<open>recordUsage\<close>. \<open>heur\<close> is what the engine running the driver makes of a
  \<open>periodStart\<close> outside the forms of \<open>iso_utc\<close>; a time value \<open>NaN\<close> stays \<open>NaN\<close> through
  \<open>Math.floor\<close> and is the timestamp \<open>None\<close>.
\<close>

definition recordUsage_request ::
  "date_heuristics \<Rightarrow> stripe_client \<Rightarrow> RecordUsageParams \<Rightarrow> sent_request" where
  "recordUsage_request heur client params =
     (let deterministicTimestampSec =
            map_option (\<lambda>ms. Math_floor_div ms 1000) (Date_getTime heur (periodStart params))
      in \<lparr> req_client = client,
           req_call = CreateUsageRecord (subscriptionItemId params)
             \<lparr> ur_quantity = Math_round (quantity params),
               ur_timestamp = deterministicTimestampSec,
               ur_action = ''set'' \<rparr>,
           req_options = \<lparr> opt_idempotencyKey = Some (idempotencyKey params),
                           opt_stripeAccount = account_header (stripeAccount params) \<rparr> \<rparr>)"

definition recordUsage ::
  "date_heuristics \<Rightarrow> 'w stripe_sdk \<Rightarrow> driver \<Rightarrow> RecordUsageParams \<Rightarrow> 'w
     \<Rightarrow> (driver_error + string) \<times> 'w \<times> effect list" where
  "recordUsage heur sdk drv params w =
     (case clientForMode drv (mode params) of
        Inl e \<Rightarrow> (Inl e, w, [])
      | Inr client \<Rightarrow>
          (let req = recordUsage_request heur client params in
           case createUsageRecord sdk w req of
             (Inl e, w') \<Rightarrow> (Inl (ApiError e), w', [Sent req])
           | (Inr r, w') \<Rightarrow> (Inr r, w', [Sent req])))"

subsection \<open>Test clocks\<close>

definition createTestClock ::
  "'w stripe_sdk \<Rightarrow> driver \<Rightarrow> int \<Rightarrow> string option \<Rightarrow> 'w \<Rightarrow> (driver_error + string) \<times> 'w \<times> effect list" where
  "createTestClock sdk drv frozenTime name w =
     (case clientForMode drv Test of
        Inl e \<Rightarrow> (Inl e, w, [])
      | Inr client \<Rightarrow>
          (let req = \<lparr> req_client = client, req_call = CreateTestClock frozenTime name,
                       req_options = \<lparr> opt_idempotencyKey = None, opt_stripeAccount = None \<rparr> \<rparr> in
           case testClocks sdk w req of
             (Inl e, w') \<Rightarrow> (Inl (ApiError e), w', [Sent req])
           | (Inr r, w') \<Rightarrow> (Inr r, w', [Sent req])))"

definition advanceTestClock ::
  "'w stripe_sdk \<Rightarrow> driver \<Rightarrow> string \<Rightarrow> int \<Rightarrow> 'w \<Rightarrow> (driver_error + string) \<times> 'w \<times> effect list" where
  "advanceTestClock sdk drv clockId frozenTime w =
     (case clientForMode drv Test of
        Inl e \<Rightarrow> (Inl e, w, [])
      | Inr client \<Rightarrow>
          (let req = \<lparr> req_client = client, req_call = AdvanceTestClock clockId frozenTime,
                       req_options = \<lparr> opt_idempotencyKey = None, opt_stripeAccount = None \<rparr> \<rparr> in
           case testClocks sdk w req of
             (Inl e, w') \<Rightarrow> (Inl (ApiError e), w', [Sent req])
           | (Inr r, w') \<Rightarrow> (Inr r, w', [Sent req])))"

subsection \<open>getUsageSummary\<close>

record UsageSummary =
  us_subscriptionItemId :: string
  us_stripeAccount :: string
  us_periodStart :: string
  totalUsage :: int

text \<open>\<open>s.total_usage ?? 0\<close>\<close>

definition usage_of :: "UsageRecordSummary \<Rightarrow> int" where
  "usage_of s = (case total_usage s of None \<Rightarrow> 0 | Some u \<Rightarrow> u)"

text \<open>\<open>for (const s of resp.data) totalUsage += s.total_usage ?? 0\<close>\<close>

fun add_usage :: "int \<Rightarrow> UsageRecordSummary list \<Rightarrow> int" where
  "add_usage tu [] = tu"
| "add_usage tu (s # ss) = add_usage (tu + usage_of s) ss"

text \<open>\<open>resp.data[resp.data.length - 1]?.id\<close>\<close>

definition last_id :: "UsageRecordSummary list \<Rightarrow> string option" where
  "last_id xs = (if xs = [] then None else Some (urs_id (last xs)))"

definition list_request :: "stripe_client \<Rightarrow> string \<Rightarrow> request_options \<Rightarrow> string option \<Rightarrow> sent_request" where
  "list_request client item headers startingAfter =
     \<lparr> req_client = client,
       req_call = ListUsageRecordSummaries item 100 startingAfter,
       req_options = headers \<rparr>"

text \<open>
  The loop \<open>for (let i = 0; i < 5; i++)\<close>; the first argument is the number \<open>5 - i\<close>
  of iterations that are left. The result is the total or the error thrown, the
  state of the world, and the requests sent.
\<close>

fun list_pages ::
  "nat \<Rightarrow> 'w stripe_sdk \<Rightarrow> stripe_client \<Rightarrow> string \<Rightarrow> request_options \<Rightarrow> string option \<Rightarrow> int \<Rightarrow> 'w
     \<Rightarrow> (api_error + int) \<times> 'w \<times> effect list" where
  "list_pages 0 sdk client item headers startingAfter tu w = (Inr tu, w, [])"
| "list_pages (Suc n) sdk client item headers startingAfter tu w =
     (let req = list_request client item headers startingAfter in
      case listUsageRecordSummaries sdk w req of
        (Inl e, w') \<Rightarrow> (Inl e, w', [Sent req])
      | (Inr resp, w') \<Rightarrow>
          (let tu' = add_usage tu (page_data resp) in
           if \<not> has_more resp then (Inr tu', w', [Sent req])
           else (case list_pages n sdk client item headers (last_id (page_data resp)) tu' w' of
                   (r, w'', effs) \<Rightarrow> (r, w'', Sent req # effs))))"

text \<open>The body of the \<open>try\<close>: one attempt.\<close>

definition retrieve_request :: "stripe_client \<Rightarrow> string \<Rightarrow> request_options \<Rightarrow> sent_request" where
  "retrieve_request client item headers =
     \<lparr> req_client = client, req_call = RetrieveItem item, req_options = headers \<rparr>"

definition try_block ::
  "'w stripe_sdk \<Rightarrow> stripe_client \<Rightarrow> string \<Rightarrow> request_options \<Rightarrow> 'w
     \<Rightarrow> (api_error + int) \<times> 'w \<times> effect list" where
  "try_block sdk client item headers w =
     (let req = retrieve_request client item headers in
      case retrieve sdk w req of
        (Inl e, w') \<Rightarrow> (Inl e, w', [Sent req])
      | (Inr _, w') \<Rightarrow>
          (case list_pages 5 sdk client item headers None 0 w' of
             (r, w'', effs) \<Rightarrow> (r, w'', Sent req # effs)))"

text \<open>\<open>error?.statusCode || error?.status || 0\<close>\<close>

definition error_status :: "api_error \<Rightarrow> nat" where
  "error_status e =
     (case statusCode e of
        Some s \<Rightarrow> if s \<noteq> 0 then s else (case status e of Some t \<Rightarrow> t | None \<Rightarrow> 0)
      | None \<Rightarrow> (case status e of Some t \<Rightarrow> t | None \<Rightarrow> 0))"

definition retryable :: "nat \<Rightarrow> bool" where
  "retryable st = (st = 429 \<or> (st \<ge> 500 \<and> st < 600))"

definition maxRetries :: nat where
  "maxRetries = 3"

definition may_retry :: "(api_error + int) \<Rightarrow> nat \<Rightarrow> bool" where
  "may_retry r attempt =
     (case r of Inr _ \<Rightarrow> False | Inl e \<Rightarrow> retryable (error_status e) \<and> attempt < maxRetries)"

text \<open>
  The loop \<open>while (true) { try { ... } catch (error) { ... } }\<close>, from the value
  \<open>attempt\<close> of its counter.
\<close>

function getUsageSummary_loop ::
  "'w stripe_sdk \<Rightarrow> stripe_client \<Rightarrow> string \<Rightarrow> request_options \<Rightarrow> nat \<Rightarrow> 'w
     \<Rightarrow> (api_error + int) \<times> 'w \<times> effect list" where
  "getUsageSummary_loop sdk client item headers attempt w =
     (let t = try_block sdk client item headers w in
      if may_retry (fst t) attempt then
        (let delayMs = 2 ^ attempt * 250;
             rest = getUsageSummary_loop sdk client item headers (attempt + 1) (fst (snd t))
         in (fst rest, fst (snd rest), snd (snd t) @ Sleep delayMs # snd (snd rest)))
      else t)"
  by pat_completeness auto
termination
  by (relation "measure (\<lambda>(sdk, client, item, headers, attempt, w). maxRetries - attempt)")
     (auto simp: may_retry_def split: sum.splits)

declare getUsageSummary_loop.simps [simp del]

definition getUsageSummary ::
  "'w stripe_sdk \<Rightarrow> driver \<Rightarrow> string \<Rightarrow> string \<Rightarrow> string \<Rightarrow> 'w
     \<Rightarrow> (driver_error + UsageSummary) \<times> 'w \<times> effect list" where
  "getUsageSummary sdk drv item period account w =
     (let client = stripeLive drv;
          headers = \<lparr> opt_idempotencyKey = None, opt_stripeAccount = account_header account \<rparr>
      in case getUsageSummary_loop sdk client item headers 0 w of
           (Inl e, w', effs) \<Rightarrow> (Inl (ApiError e), w', effs)
         | (Inr tu, w', effs) \<Rightarrow>
             (Inr \<lparr> us_subscriptionItemId = item, us_stripeAccount = account,
                    us_periodStart = period, totalUsage = tu \<rparr>, w', effs))"


subsection \<open>Observations on what a driver call did\<close>

fun is_retrieve :: "effect \<Rightarrow> bool" where
  "is_retrieve (Sent q) = (case req_call q of RetrieveItem _ \<Rightarrow> True | _ \<Rightarrow> False)"
| "is_retrieve (Sleep _) = False"

text \<open>Every attempt of \<open>getUsageSummary\<close> starts with one \<open>retrieve\<close> request.\<close>

definition attempts_made :: "effect list \<Rightarrow> nat" where
  "attempts_made effs = length (filter is_retrieve effs)"

fun sleeps :: "effect list \<Rightarrow> nat list" where
  "sleeps [] = []"
| "sleeps (Sleep d # xs) = d # sleeps xs"
| "sleeps (Sent _ # xs) = sleeps xs"

text \<open>
  Read off the pages a call was answered with: the \<open>starting_after\<close> that continues
  after the first \<open>i\<close> of them is the \<open>id\<close> of the last summary of page \<open>i - 1\<close>, and
  there is none for the first request or after an empty page.
\<close>

fun page_cursor :: "summary_page list \<Rightarrow> nat \<Rightarrow> string option" where
  "page_cursor pages 0 = None"
| "page_cursor pages (Suc i) =
     (if page_data (pages ! i) = [] then None else Some (urs_id (last (page_data (pages ! i)))))"

definition summary_of :: "string \<Rightarrow> string \<Rightarrow> string \<Rightarrow> (api_error + int) \<Rightarrow> driver_error + UsageSummary" where
  "summary_of item period account r =
     (case r of
        Inl e \<Rightarrow> Inl (ApiError e)
      | Inr tu \<Rightarrow> Inr \<lparr> us_subscriptionItemId = item, us_stripeAccount = account,
                        us_periodStart = period, totalUsage = tu \<rparr>)"

section \<open>The push idempotency key\<close>

definition is_digit :: "char \<Rightarrow> bool" where
  "is_digit c = (c \<in> set ''0123456789'')"

text \<open>The decimal digits of a natural number.\<close>

function show_nat :: "nat \<Rightarrow> string" where
  "show_nat n = (if n < 10 then [digit_char n] else show_nat (n div 10) @ [digit_char n])"
  by pat_completeness auto
termination
  by (relation "measure id") auto

declare show_nat.simps [simp del]

definition pad6 :: "nat \<Rightarrow> string" where
  "pad6 n = map digit_char [n div 100000, n div 10000, n div 1000, n div 100, n div 10, n]"

text \<open>
  A decimal written with exactly six decimal places, rounded to the nearest
  millionth (a tie away from zero), as \<open>toFixed(6)\<close> writes it.
\<close>

definition toFixed6 :: "decimal \<Rightarrow> string" where
  "toFixed6 q =
     (let n = nat ((2 * \<bar>mantissa q\<bar> * 10 ^ 6 + 10 ^ scale q) div (2 * 10 ^ scale q))
      in (if mantissa q < 0 then ''-'' else []) @ show_nat (n div 1000000) @ ''.'' @ pad6 n)"

text \<open>
  Modelled from the spec: \<open>generateStripeIdempotencyKey\<close> of the package
  \<open>@stripemeter/core\<close> is not among the sources, only its test in
  \<open>stripe-writer.test.ts\<close> is. The spec gives the key as the deterministic string built
  from (tenantId, subscriptionItemId, periodStart, quantity formatted to exactly six
  decimal places), prefixed to distinguish it from ingestion keys; the prefix \<open>push:\<close>
  and the separator \<open>:\<close> are those of the spec's example and of the test.
\<close>

definition generateStripeIdempotencyKey :: "string \<Rightarrow> string \<Rightarrow> string \<Rightarrow> decimal \<Rightarrow> string" where
  "generateStripeIdempotencyKey tenant item period qty =
     ''push:'' @ tenant @ '':'' @ item @ '':'' @ period @ '':'' @ toFixed6 qty"

section \<open>Authentication helpers (utils/auth)\<close>

text \<open>The switches of \<open>process.env\<close> that the routes and the helpers read.\<close>

datatype database_module =
    ImportFailed
  | Imported bool

record server_env =
  BYPASS_AUTH :: bool
  NODE_ENV_test :: bool
  FORCE_AUTH :: bool
  USE_REDIS_IN_TEST :: bool
  database :: database_module

text \<open>
  \<open>BYPASS_AUTH\<close> stands for \<open>process.env.BYPASS_AUTH === '1'\<close>, \<open>NODE_ENV_test\<close> for
  \<open>process.env.NODE_ENV === 'test'\<close>, \<open>FORCE_AUTH\<close> for \<open>process.env.FORCE_AUTH === '1'\<close>.
  \<open>database\<close> says whether \<open>import('@stripemeter/database')\<close> succeeded and, if so,
  whether the module's \<open>redis\<close> is defined.
\<close>

definition testBypass :: "server_env \<Rightarrow> bool" where
  "testBypass env = (NODE_ENV_test env \<and> \<not> FORCE_AUTH env)"

text \<open>Of the tenant context of a request the ingestion route reads \<open>organisationId\<close> only.\<close>

record TenantContext =
  organisationId :: string

datatype header_value =
    NoHeader
  | OneValue string
  | ManyValues "string list"

text \<open>A UTC instant by its calendar fields, as an ISO date-time string \<open>...Z\<close> gives it.\<close>

record utc_time =
  utc_year :: nat
  utc_month :: nat
  utc_day :: nat
  utc_hours :: nat
  utc_minutes :: nat
  utc_seconds :: nat
  utc_millis :: nat

text \<open>\<open>new Date(ts).getTime()\<close>\<close>

definition getTime :: "utc_time \<Rightarrow> int" where
  "getTime t =
     days_from_civil (int (utc_year t)) (utc_month t) (utc_day t) * 86400000
       + int (utc_hours t) * 3600000 + int (utc_minutes t) * 60000
       + int (utc_seconds t) * 1000 + int (utc_millis t)"

record UsageEvent =
  ev_tenantId :: string
  ev_metric :: string
  ev_customerRef :: string
  ev_resourceId :: "string option"
  ev_quantity :: decimal
  ev_ts :: utc_time
  ev_idempotencyKey :: "string option"
  ev_source :: "string option"

record ingest_request =
  tenant :: "TenantContext option"
  idempotency_key_header :: header_value
  request_id :: string
  events :: "UsageEvent list"

text \<open>What ends a request before the handler's own response: a reply sent by a helper, or a throw.\<close>

datatype early_reply =
    Reply401 string
  | Reply403 string
  | Thrown string

definition getTenantId :: "server_env \<Rightarrow> ingest_request \<Rightarrow> early_reply + string" where
  "getTenantId env request =
     (if BYPASS_AUTH env \<or> testBypass env then Inr ''00000000-0000-0000-0000-000000000000''
      else (case tenant request of
              None \<Rightarrow> Inl (Thrown ''tenant_not_resolved'')
            | Some t \<Rightarrow> if organisationId t = [] then Inl (Thrown ''tenant_not_resolved'')
                        else Inr (organisationId t)))"

text \<open>
  \<open>requireTenantMatch\<close> returns \<open>true\<close> (here \<open>None\<close>), or sends a reply and returns
  \<open>false\<close> (here the reply sent).
\<close>

definition requireTenantMatch :: "server_env \<Rightarrow> ingest_request \<Rightarrow> string option \<Rightarrow> early_reply option" where
  "requireTenantMatch env request providedTenantId =
     (if BYPASS_AUTH env \<or> testBypass env then None
      else (case tenant request of
              None \<Rightarrow> Some (Reply401 ''unauthenticated'')
            | Some t \<Rightarrow>
                if organisationId t = [] then Some (Reply401 ''unauthenticated'')
                else if \<not> truthy providedTenantId then None
                else if providedTenantId \<noteq> Some (organisationId t) then Some (Reply403 ''forbidden'')
                else None))"

section \<open>The ingestion route (POST /v1/events/ingest)\<close>

text \<open>
  \<open>generateIdempotencyKey\<close> of \<open>@stripemeter/core\<close> is not among the sources; the route
  is modelled for any function of (tenantId, metric, customerRef, resourceId, ts).
\<close>

type_synonym key_generator = "string \<Rightarrow> string \<Rightarrow> string \<Rightarrow> string option \<Rightarrow> utc_time \<Rightarrow> string"

datatype result_status = Accepted | Duplicate | Error

record result_entry =
  res_idempotencyKey :: string
  res_status :: result_status
  res_error :: "string option"

record index_error =
  err_index :: nat
  err_error :: string

text \<open>An element of \<open>eventsToInsert\<close>, and a row of the events table.\<close>

record StoredEvent =
  se_tenantId :: string
  se_metric :: string
  se_customerRef :: string
  se_resourceId :: "string option"
  se_quantity :: decimal
  se_ts :: utc_time
  se_idempotencyKey :: string
  se_source :: string

text \<open>
  \<open>Array.isArray(headerIdempotencyKeyRaw) ? headerIdempotencyKeyRaw[0] : headerIdempotencyKeyRaw\<close>
\<close>

definition headerIdempotencyKey :: "header_value \<Rightarrow> string option" where
  "headerIdempotencyKey raw =
     (case raw of
        NoHeader \<Rightarrow> None
      | OneValue s \<Rightarrow> Some s
      | ManyValues xs \<Rightarrow> (case xs of [] \<Rightarrow> None | x # _ \<Rightarrow> Some x))"

text \<open>\<open>event.idempotencyKey || headerIdempotencyKey || generateIdempotencyKey({...})\<close>\<close>

definition resolve_key :: "key_generator \<Rightarrow> string option \<Rightarrow> UsageEvent \<Rightarrow> string" where
  "resolve_key gen hdr event =
     (if truthy (ev_idempotencyKey event) then the (ev_idempotencyKey event)
      else if truthy hdr then the hdr
      else gen (ev_tenantId event) (ev_metric event) (ev_customerRef event)
               (ev_resourceId event) (ev_ts event))"

text \<open>
  What one iteration of the loop over the batch does once the tenant check has passed:
  it pushes onto \<open>errors\<close> and \<open>results\<close>, or onto \<open>eventsToInsert\<close>.
\<close>

datatype event_outcome =
    Rejected index_error result_entry
  | ToInsert StoredEvent

definition force_tenant :: "server_env \<Rightarrow> string \<Rightarrow> UsageEvent \<Rightarrow> UsageEvent" where
  "force_tenant env authTenantId event =
     (if \<not> BYPASS_AUTH env then event\<lparr> ev_tenantId := authTenantId \<rparr> else event)"

text \<open>
  \<open>{...event, idempotencyKey, quantity: event.quantity.toString(), ts: new Date(event.ts),
  source: event.source || 'http'}\<close>
\<close>

definition stored_event :: "string \<Rightarrow> UsageEvent \<Rightarrow> StoredEvent" where
  "stored_event key event =
     \<lparr> se_tenantId = ev_tenantId event, se_metric = ev_metric event,
       se_customerRef = ev_customerRef event, se_resourceId = ev_resourceId event,
       se_quantity = ev_quantity event, se_ts = ev_ts event,
       se_idempotencyKey = key,
       se_source = (if truthy (ev_source event) then the (ev_source event) else ''http'') \<rparr>"

definition process_event ::
  "key_generator \<Rightarrow> server_env \<Rightarrow> string \<Rightarrow> string option \<Rightarrow> int \<Rightarrow> nat \<Rightarrow> UsageEvent \<Rightarrow> event_outcome" where
  "process_event gen env authTenantId hdr now i ev =
     (let event = force_tenant env authTenantId ev;
          key = resolve_key gen hdr event;
          eventTime = getTime (ev_ts event);
          maxFuture = now + 60 * 60 * 1000
      in if eventTime > maxFuture then
           Rejected \<lparr> err_index = i, err_error = ''Event timestamp too far in the future'' \<rparr>
                    \<lparr> res_idempotencyKey = key, res_status = Error,
                      res_error = Some ''Event timestamp too far in the future'' \<rparr>
         else ToInsert (stored_event key event))"

text \<open>
  The loop \<open>for (let i = 0; i < eventBatch.length; i++)\<close> from index \<open>i\<close>, over the
  events that are left. \<open>clock i\<close> is the time \<open>new Date()\<close> reads in iteration \<open>i\<close>. A
  failed tenant check returns from the handler; otherwise the outcomes are kept in the
  order of the batch.
\<close>

fun process_events ::
  "key_generator \<Rightarrow> server_env \<Rightarrow> ingest_request \<Rightarrow> string \<Rightarrow> string option \<Rightarrow> (nat \<Rightarrow> int)
     \<Rightarrow> nat \<Rightarrow> UsageEvent list \<Rightarrow> early_reply + event_outcome list" where
  "process_events gen env request authTenantId hdr clock i [] = Inr []"
| "process_events gen env request authTenantId hdr clock i (ev # rest) =
     (case requireTenantMatch env request (Some (ev_tenantId ev)) of
        Some reply \<Rightarrow> Inl reply
      | None \<Rightarrow>
          (case process_events gen env request authTenantId hdr clock (Suc i) rest of
             Inl reply \<Rightarrow> Inl reply
           | Inr outs \<Rightarrow> Inr (process_event gen env authTenantId hdr (clock i) i ev # outs)))"

fun errors_of :: "event_outcome list \<Rightarrow> index_error list" where
  "errors_of [] = []"
| "errors_of (Rejected e r # outs) = e # errors_of outs"
| "errors_of (ToInsert s # outs) = errors_of outs"

fun error_results_of :: "event_outcome list \<Rightarrow> result_entry list" where
  "error_results_of [] = []"
| "error_results_of (Rejected e r # outs) = r # error_results_of outs"
| "error_results_of (ToInsert s # outs) = error_results_of outs"

fun eventsToInsert_of :: "event_outcome list \<Rightarrow> StoredEvent list" where
  "eventsToInsert_of [] = []"
| "eventsToInsert_of (Rejected e r # outs) = eventsToInsert_of outs"
| "eventsToInsert_of (ToInsert s # outs) = s # eventsToInsert_of outs"

subsection \<open>Persistence\<close>

text \<open>
  The state the route works on: the rows of the events table, whether the database
  is failing, and the module-level in-memory fallback of the bypass mode.
\<close>

record server_state =
  db_events :: "StoredEvent list"
  db_failing :: bool
  inMemoryIdempotencyKeys :: "string set"
  inMemoryEvents :: "StoredEvent list"

text \<open>
  Modelled from the spec: \<open>EventsRepository.upsertBatch\<close> of \<open>@stripemeter/database\<close> is not
  among the sources. The spec has it persist the events as an upsert-if-absent operation
  against the unique idempotency key, partitioning the outcome into inserted and
  duplicate sets: an event whose key is already in the table is a duplicate, any other
  event is inserted. The result is (inserted, duplicates, rows of the table).
\<close>

fun upsertBatch :: "StoredEvent list \<Rightarrow> StoredEvent list \<Rightarrow> StoredEvent list \<times> string list \<times> StoredEvent list" where
  "upsertBatch rows [] = ([], [], rows)"
| "upsertBatch rows (e # es) =
     (if se_idempotencyKey e \<in> se_idempotencyKey ` set rows then
        (case upsertBatch rows es of
           (inserted, dups, rows') \<Rightarrow> (inserted, se_idempotencyKey e # dups, rows'))
      else
        (case upsertBatch (rows @ [e]) es of
           (inserted, dups, rows') \<Rightarrow> (e # inserted, dups, rows')))"

text \<open>
  The loop of the bypass mode over \<open>eventsToInsert\<close>, on \<open>inMemoryIdempotencyKeys\<close>:
  (newlyInserted, dupKeys, keys afterwards).
\<close>

fun simulate_idempotency :: "string set \<Rightarrow> StoredEvent list \<Rightarrow> StoredEvent list \<times> string list \<times> string set" where
  "simulate_idempotency keys [] = ([], [], keys)"
| "simulate_idempotency keys (e # es) =
     (if se_idempotencyKey e \<in> keys then
        (case simulate_idempotency keys es of
           (newlyInserted, dupKeys, keys') \<Rightarrow> (newlyInserted, se_idempotencyKey e # dupKeys, keys'))
      else
        (case simulate_idempotency (insert (se_idempotencyKey e) keys) es of
           (newlyInserted, dupKeys, keys') \<Rightarrow> (e # newlyInserted, dupKeys, keys')))"

text \<open>
  \<open>eventsRepo.upsertBatch(eventsToInsert)\<close> inside its \<open>try\<close>: the fallback repository of
  a failed import returns two empty lists; a failing database throws, which the bypass
  mode swallows.
\<close>

definition persist ::
  "server_env \<Rightarrow> server_state \<Rightarrow> StoredEvent list
     \<Rightarrow> early_reply + (StoredEvent list \<times> string list \<times> server_state)" where
  "persist env st eventsToInsert =
     (case database env of
        ImportFailed \<Rightarrow> Inr ([], [], st)
      | Imported _ \<Rightarrow>
          if db_failing st then
            (if BYPASS_AUTH env then Inr ([], [], st) else Inl (Thrown ''upsertBatch''))
          else (case upsertBatch (db_events st) eventsToInsert of
                  (inserted, dups, rows') \<Rightarrow> Inr (inserted, dups, st\<lparr> db_events := rows' \<rparr>)))"

text \<open>The simulation of the bypass mode when the repository returned nothing.\<close>

definition bypass_simulation ::
  "server_env \<Rightarrow> StoredEvent list \<Rightarrow> (StoredEvent list \<times> string list \<times> server_state)
     \<Rightarrow> (StoredEvent list \<times> string list \<times> server_state)" where
  "bypass_simulation env eventsToInsert p =
     (case p of (inserted, dups, st) \<Rightarrow>
        if BYPASS_AUTH env \<and> eventsToInsert \<noteq> [] \<and> inserted = [] \<and> dups = [] then
          (case simulate_idempotency (inMemoryIdempotencyKeys st) eventsToInsert of
             (newlyInserted, dupKeys, keys') \<Rightarrow>
               (newlyInserted, dupKeys,
                st\<lparr> inMemoryIdempotencyKeys := keys',
                    inMemoryEvents := inMemoryEvents st @ newlyInserted \<rparr>))
        else (inserted, dups, st))"

text \<open>The statuses pushed onto \<open>results\<close> for the events of \<open>eventsToInsert\<close>, by key.\<close>

fun status_results :: "string set \<Rightarrow> string set \<Rightarrow> StoredEvent list \<Rightarrow> result_entry list" where
  "status_results insertedKeys duplicateKeys [] = []"
| "status_results insertedKeys duplicateKeys (e # es) =
     (let key = se_idempotencyKey e in
      if key \<in> insertedKeys then
        \<lparr> res_idempotencyKey = key, res_status = Accepted, res_error = None \<rparr>
          # status_results insertedKeys duplicateKeys es
      else if key \<in> duplicateKeys then
        \<lparr> res_idempotencyKey = key, res_status = Duplicate, res_error = None \<rparr>
          # status_results insertedKeys duplicateKeys es
      else status_results insertedKeys duplicateKeys es)"

subsection \<open>Aggregation jobs\<close>

text \<open>\<open>Date.prototype.toISOString\<close>; years after 9999 take a sign and six digits.\<close>

definition toISOString :: "utc_time \<Rightarrow> string" where
  "toISOString t =
     (if utc_year t \<le> 9999 then pad4 (utc_year t)
      else ''+'' @ pad2 (utc_year t div 10000) @ pad4 (utc_year t))
     @ ''-'' @ pad2 (utc_month t) @ ''-'' @ pad2 (utc_day t)
     @ ''T'' @ pad2 (utc_hours t) @ '':'' @ pad2 (utc_minutes t) @ '':'' @ pad2 (utc_seconds t)
     @ ''.'' @ pad3 (utc_millis t) @ ''Z''"

text \<open>\<open>periodStart.setUTCDate(1); periodStart.setUTCHours(0, 0, 0, 0)\<close>\<close>

definition period_start :: "utc_time \<Rightarrow> utc_time" where
  "period_start t =
     t\<lparr> utc_day := 1, utc_hours := 0, utc_minutes := 0, utc_seconds := 0, utc_millis := 0 \<rparr>"

record AggregationJob =
  job_tenantId :: string
  job_metric :: string
  job_customerRef :: string
  job_periodStart :: string

record BulkJob =
  bj_name :: string
  bj_data :: AggregationJob
  bj_delay :: nat
  bj_jobId :: string
  bj_removeOnComplete :: nat
  bj_removeOnFail :: nat

definition job_key :: "string \<Rightarrow> string \<Rightarrow> string \<Rightarrow> string \<Rightarrow> string" where
  "job_key t m c p = t @ '':'' @ m @ '':'' @ c @ '':'' @ p"

definition event_job :: "StoredEvent \<Rightarrow> AggregationJob" where
  "event_job event =
     \<lparr> job_tenantId = se_tenantId event, job_metric = se_metric event,
       job_customerRef = se_customerRef event,
       job_periodStart = toISOString (period_start (se_ts event)) \<rparr>"

definition event_key :: "StoredEvent \<Rightarrow> string" where
  "event_key event =
     job_key (se_tenantId event) (se_metric event) (se_customerRef event)
             (toISOString (period_start (se_ts event)))"

text \<open>
  The loop that fills the \<open>Map\<close> \<open>aggregationJobs\<close>, kept in insertion order: a key that
  is present is left alone.
\<close>

fun collect_jobs :: "(string \<times> AggregationJob) list \<Rightarrow> StoredEvent list \<Rightarrow> (string \<times> AggregationJob) list" where
  "collect_jobs aggregationJobs [] = aggregationJobs"
| "collect_jobs aggregationJobs (event # rest) =
     (if event_key event \<notin> fst ` set aggregationJobs
      then collect_jobs (aggregationJobs @ [(event_key event, event_job event)]) rest
      else collect_jobs aggregationJobs rest)"

definition bulk_job :: "AggregationJob \<Rightarrow> BulkJob" where
  "bulk_job job =
     \<lparr> bj_name = ''aggregate-counter'', bj_data = job, bj_delay = 1000,
       bj_jobId = job_key (job_tenantId job) (job_metric job) (job_customerRef job) (job_periodStart job),
       bj_removeOnComplete = 100, bj_removeOnFail = 1000 \<rparr>"

datatype queue = StubQueue | RedisQueue

text \<open>\<open>createQueue('aggregation')\<close>; \<open>None\<close> is \<open>undefined\<close>.\<close>

definition aggregationQueue :: "server_env \<Rightarrow> queue option" where
  "aggregationQueue env =
     (if NODE_ENV_test env \<and> \<not> USE_REDIS_IN_TEST env then Some StubQueue
      else (case database env of
              Imported True \<Rightarrow> Some RedisQueue
            | _ \<Rightarrow> None))"

text \<open>The argument of \<open>aggregationQueue.addBulk\<close>, or \<open>None\<close> when it is not called.\<close>

definition enqueue_jobs :: "server_env \<Rightarrow> StoredEvent list \<Rightarrow> BulkJob list option" where
  "enqueue_jobs env inserted =
     (if inserted \<noteq> [] \<and> aggregationQueue env \<noteq> None
      then Some (map (bulk_job \<circ> snd) (collect_jobs [] inserted))
      else None)"

subsection \<open>The handler\<close>

record IngestEventResponse =
  accepted :: nat
  duplicates :: nat
  requestId :: string
  results :: "result_entry list"
  errors :: "index_error list option"

record ingest_outcome =
  response :: IngestEventResponse
  state_after :: server_state
  persisted :: "StoredEvent list"
  submitted :: "BulkJob list option"

text \<open>
  The handler on a body that passed \<open>ingestEventRequestSchema\<close> (the schema is not among
  the sources), after the scope check of the \<open>preHandler\<close>; the metrics it records are
  left out. \<open>persisted\<close> is the handler's variable \<open>inserted\<close>: the events this request
  added to the table, or to the in-memory store of the bypass mode.
\<close>

text \<open>
  The first half of the handler: the tenant of the request, the \<open>Idempotency-Key\<close> header,
  and the loop over \<open>events\<close>.
\<close>

definition event_loop ::
  "key_generator \<Rightarrow> server_env \<Rightarrow> (nat \<Rightarrow> int) \<Rightarrow> ingest_request
     \<Rightarrow> early_reply + event_outcome list" where
  "event_loop gen env clock request =
     (case getTenantId env request of
        Inl reply \<Rightarrow> Inl reply
      | Inr authTenantId \<Rightarrow>
          process_events gen env request authTenantId
            (headerIdempotencyKey (idempotency_key_header request)) clock 0 (events request))"

definition ingest ::
  "key_generator \<Rightarrow> server_env \<Rightarrow> (nat \<Rightarrow> int) \<Rightarrow> server_state \<Rightarrow> ingest_request
     \<Rightarrow> early_reply + ingest_outcome" where
  "ingest gen env clock st request =
     (case event_loop gen env clock request of
        Inl reply \<Rightarrow> Inl reply
      | Inr outs \<Rightarrow>
          (let eventsToInsert = eventsToInsert_of outs in
           case persist env st eventsToInsert of
             Inl reply \<Rightarrow> Inl reply
           | Inr p \<Rightarrow>
               (case bypass_simulation env eventsToInsert p of
                  (inserted, dups, st') \<Rightarrow>
                    Inr \<lparr> response =
                            \<lparr> accepted = length inserted,
                              duplicates = length dups,
                              requestId = request_id request,
                              results = error_results_of outs
                                @ status_results (se_idempotencyKey ` set inserted) (set dups) eventsToInsert,
                              errors = (if errors_of outs \<noteq> [] then Some (errors_of outs) else None) \<rparr>,
                          state_after = st',
                          persisted = inserted,
                          submitted = enqueue_jobs env inserted \<rparr>)))"

subsection \<open>The events of a request, by index\<close>

text \<open>
  Event \<open>j\<close> of the batch as the loop sees it: with the tenant forced (outside the bypass
  mode), its deduplication key, whether its timestamp is more than one hour after the
  time read in its iteration, and the element it adds to \<open>eventsToInsert\<close> if not.
\<close>

definition event_at :: "server_env \<Rightarrow> string \<Rightarrow> ingest_request \<Rightarrow> nat \<Rightarrow> UsageEvent" where
  "event_at env authTenantId request j = force_tenant env authTenantId (events request ! j)"

definition key_at :: "key_generator \<Rightarrow> server_env \<Rightarrow> string \<Rightarrow> ingest_request \<Rightarrow> nat \<Rightarrow> string" where
  "key_at gen env authTenantId request j =
     resolve_key gen (headerIdempotencyKey (idempotency_key_header request))
       (event_at env authTenantId request j)"

definition too_far_ahead :: "(nat \<Rightarrow> int) \<Rightarrow> ingest_request \<Rightarrow> nat \<Rightarrow> bool" where
  "too_far_ahead clock request j = (getTime (ev_ts (events request ! j)) > clock j + 3600000)"

definition stored_at :: "key_generator \<Rightarrow> server_env \<Rightarrow> string \<Rightarrow> ingest_request \<Rightarrow> nat \<Rightarrow> StoredEvent" where
  "stored_at gen env authTenantId request j =
     stored_event (key_at gen env authTenantId request j) (event_at env authTenantId request j)"

text \<open>The idempotency keys the server holds: in the events table and in the in-memory set.\<close>

definition known_keys :: "server_state \<Rightarrow> string set" where
  "known_keys st = se_idempotencyKey ` set (db_events st) \<union> inMemoryIdempotencyKeys st"


text \<open>
  What persisting \<open>es\<close> from state \<open>st\<close> may yield as (inserted, duplicates, state):
  nothing but events and keys of \<open>es\<close>, new rows only for inserted events, and inserted
  events that are new to the store they went to.
\<close>

definition persisted_ok ::
  "server_env \<Rightarrow> server_state \<Rightarrow> StoredEvent list \<Rightarrow> StoredEvent list \<Rightarrow> string list \<Rightarrow> server_state \<Rightarrow> bool" where
  "persisted_ok env st es ins dups st' =
    (set ins \<subseteq> set es \<and> set dups \<subseteq> se_idempotencyKey ` set es \<and>
     set (db_events st') \<subseteq> set (db_events st) \<union> set ins \<and>
     set (inMemoryEvents st') \<subseteq> set (inMemoryEvents st) \<union> set ins \<and>
     (database env \<noteq> ImportFailed \<or> BYPASS_AUTH env \<longrightarrow> se_idempotencyKey ` set es \<subseteq> known_keys st') \<and>
     ((\<forall>e \<in> set ins. se_idempotencyKey e \<notin> se_idempotencyKey ` set (db_events st)) \<or>
         (\<forall>e \<in> set ins. se_idempotencyKey e \<notin> inMemoryIdempotencyKeys st)))"

text \<open>An event whose tenant, metric and customer contain no \<open>:\<close>, the separator of the job key.\<close>

definition colon_free :: "StoredEvent \<Rightarrow> bool" where
  "colon_free e =
     (CHR '':'' \<notin> set (se_tenantId e) \<and> CHR '':'' \<notin> set (se_metric e) \<and>
      CHR '':'' \<notin> set (se_customerRef e))"

section \<open>Concrete scenarios\<close>

subsection \<open>Two scripted providers\<close>

definition too_many_requests :: api_error where
  "too_many_requests = \<lparr> statusCode = Some 429, status = None \<rparr>"

definition two_summaries :: summary_page where
  "two_summaries =
     \<lparr> page_data = [\<lparr> urs_id = ''urs_1'', total_usage = Some 10 \<rparr>,
                    \<lparr> urs_id = ''urs_2'', total_usage = None \<rparr>],
       has_more = False \<rparr>"

text \<open>
  The state of the world is the number of requests received so far. The first two
  requests are answered with HTTP 429, the later ones succeed; usage records are
  always refused with 429.
\<close>

definition flaky_sdk :: "nat stripe_sdk" where
  "flaky_sdk =
     \<lparr> createUsageRecord = (\<lambda>n q. (Inl too_many_requests, Suc n)),
       retrieve = (\<lambda>n q. (if n < 2 then Inl too_many_requests else Inr (), Suc n)),
       listUsageRecordSummaries = (\<lambda>n q. (Inr two_summaries, Suc n)),
       testClocks = (\<lambda>n q. (Inr ''clock_123'', Suc n)) \<rparr>"

text \<open>A provider that accepts every request.\<close>

definition ok_sdk :: "nat stripe_sdk" where
  "ok_sdk =
     \<lparr> createUsageRecord = (\<lambda>n q. (Inr ''ur_test'', Suc n)),
       retrieve = (\<lambda>n q. (Inr (), Suc n)),
       listUsageRecordSummaries = (\<lambda>n q. (Inr two_summaries, Suc n)),
       testClocks = (\<lambda>n q. (Inr ''clock_123'', Suc n)) \<rparr>"

text \<open>
  A provider with two pages of summaries: the first page to a request without
  \<open>starting_after\<close>, the second to a request that continues after \<open>urs_2\<close>, and a page
  that belongs to neither to any other cursor.
\<close>

definition first_page :: summary_page where
  "first_page =
     \<lparr> page_data = [\<lparr> urs_id = ''urs_1'', total_usage = Some 10 \<rparr>,
                    \<lparr> urs_id = ''urs_2'', total_usage = None \<rparr>],
       has_more = True \<rparr>"

definition second_page :: summary_page where
  "second_page =
     \<lparr> page_data = [\<lparr> urs_id = ''urs_3'', total_usage = Some 2 \<rparr>], has_more = False \<rparr>"

definition stray_page :: summary_page where
  "stray_page =
     \<lparr> page_data = [\<lparr> urs_id = ''urs_9'', total_usage = Some 1000 \<rparr>], has_more = False \<rparr>"

definition page_after :: "api_call \<Rightarrow> summary_page" where
  "page_after c =
     (case c of
        ListUsageRecordSummaries item n None \<Rightarrow> first_page
      | ListUsageRecordSummaries item n (Some cursor) \<Rightarrow>
          if cursor = ''urs_2'' then second_page else stray_page
      | _ \<Rightarrow> stray_page)"

definition paged_sdk :: "nat stripe_sdk" where
  "paged_sdk =
     \<lparr> createUsageRecord = (\<lambda>n q. (Inr ''ur_test'', Suc n)),
       retrieve = (\<lambda>n q. (Inr (), Suc n)),
       listUsageRecordSummaries = (\<lambda>n q. (Inr (page_after (req_call q)), Suc n)),
       testClocks = (\<lambda>n q. (Inr ''clock_123'', Suc n)) \<rparr>"

text \<open>A provider whose every page holds one summary of 7 units and announces another page.\<close>

definition endless_page :: summary_page where
  "endless_page =
     \<lparr> page_data = [\<lparr> urs_id = ''urs_n'', total_usage = Some 7 \<rparr>], has_more = True \<rparr>"

definition endless_sdk :: "nat stripe_sdk" where
  "endless_sdk =
     \<lparr> createUsageRecord = (\<lambda>n q. (Inr ''ur_test'', Suc n)),
       retrieve = (\<lambda>n q. (Inr (), Suc n)),
       listUsageRecordSummaries = (\<lambda>n q. (Inr endless_page, Suc n)),
       testClocks = (\<lambda>n q. (Inr ''clock_123'', Suc n)) \<rparr>"

text \<open>An engine that reads no string outside the forms of \<open>iso_utc\<close>.\<close>

definition strict_engine :: date_heuristics where
  "strict_engine s = None"

definition both_keys :: process_env where
  "both_keys = \<lparr> STRIPE_SECRET_KEY = Some ''sk_live'', STRIPE_TEST_SECRET_KEY = Some ''sk_test'' \<rparr>"

definition live_key_only :: process_env where
  "live_key_only = \<lparr> STRIPE_SECRET_KEY = Some ''sk_live'', STRIPE_TEST_SECRET_KEY = None \<rparr>"

definition push_params :: "StripeEnvironment \<Rightarrow> RecordUsageParams" where
  "push_params m =
     \<lparr> mode = m, stripeAccount = ''acct_123'', subscriptionItemId = ''si_123'',
       quantity = \<lparr> mantissa = 1005, scale = 1 \<rparr>, periodStart = ''2025-01-01'',
       idempotencyKey = ''push:test'' \<rparr>"


subsection \<open>Ingestion requests\<close>

text \<open>A key generator for the scenarios: any function of the five inputs will do.\<close>

definition sample_generator :: key_generator where
  "sample_generator t m c r ts = ''evt_'' @ t @ ''_'' @ m @ ''_'' @ c @ ''_'' @ toISOString ts"

definition bypass_env :: server_env where
  "bypass_env =
     \<lparr> BYPASS_AUTH = True, NODE_ENV_test = True, FORCE_AUTH = False,
       USE_REDIS_IN_TEST = False, database = ImportFailed \<rparr>"

definition production_env :: server_env where
  "production_env =
     \<lparr> BYPASS_AUTH = False, NODE_ENV_test = False, FORCE_AUTH = False,
       USE_REDIS_IN_TEST = False, database = Imported True \<rparr>"

text \<open>The bypass mode outside the test runner, when the database module cannot be imported.\<close>

definition no_queue_env :: server_env where
  "no_queue_env =
     \<lparr> BYPASS_AUTH = True, NODE_ENV_test = False, FORCE_AUTH = False,
       USE_REDIS_IN_TEST = False, database = ImportFailed \<rparr>"

definition empty_state :: server_state where
  "empty_state =
     \<lparr> db_events = [], db_failing = False, inMemoryIdempotencyKeys = {}, inMemoryEvents = [] \<rparr>"

text \<open>2025-01-15T10:30:00.000Z\<close>

definition mid_january :: utc_time where
  "mid_january =
     \<lparr> utc_year = 2025, utc_month = 1, utc_day = 15, utc_hours = 10, utc_minutes = 30,
       utc_seconds = 0, utc_millis = 0 \<rparr>"

text \<open>2025-01-01T00:00:00.000Z\<close>

definition new_year_day :: utc_time where
  "new_year_day =
     \<lparr> utc_year = 2025, utc_month = 1, utc_day = 1, utc_hours = 0, utc_minutes = 0,
       utc_seconds = 0, utc_millis = 0 \<rparr>"

text \<open>A clock that stands at 2025-01-15T10:30:00.000Z, and one that stands two hours before.\<close>

definition clock_at_event :: "nat \<Rightarrow> int" where
  "clock_at_event i = 1736937000000"


definition usage_event :: "string \<Rightarrow> string \<Rightarrow> utc_time \<Rightarrow> UsageEvent" where
  "usage_event t c when =
     \<lparr> ev_tenantId = t, ev_metric = ''requests'', ev_customerRef = c, ev_resourceId = None,
       ev_quantity = \<lparr> mantissa = 100, scale = 0 \<rparr>, ev_ts = when,
       ev_idempotencyKey = None, ev_source = None \<rparr>"

definition request_of :: "string \<Rightarrow> UsageEvent list \<Rightarrow> ingest_request" where
  "request_of org evs =
     \<lparr> tenant = Some \<lparr> organisationId = org \<rparr>, idempotency_key_header = NoHeader,
       request_id = ''req-1'', events = evs \<rparr>"

text \<open>What the route stores for \<open>usage_event t c when\<close> under key \<open>k\<close>, and the job of its bucket.\<close>

definition stored_sample :: "string \<Rightarrow> string \<Rightarrow> utc_time \<Rightarrow> string \<Rightarrow> StoredEvent" where
  "stored_sample t c when k =
     \<lparr> se_tenantId = t, se_metric = ''requests'', se_customerRef = c, se_resourceId = None,
       se_quantity = \<lparr> mantissa = 100, scale = 0 \<rparr>, se_ts = when,
       se_idempotencyKey = k, se_source = ''http'' \<rparr>"

definition january_job :: "string \<Rightarrow> string \<Rightarrow> BulkJob" where
  "january_job t c =
     \<lparr> bj_name = ''aggregate-counter'',
       bj_data = \<lparr> job_tenantId = t, job_metric = ''requests'', job_customerRef = c,
                   job_periodStart = ''2025-01-01T00:00:00.000Z'' \<rparr>,
       bj_delay = 1000,
       bj_jobId = t @ '':requests:'' @ c @ '':2025-01-01T00:00:00.000Z'',
       bj_removeOnComplete = 100, bj_removeOnFail = 1000 \<rparr>"

definition result_of :: "string \<Rightarrow> result_status \<Rightarrow> result_entry" where
  "result_of k s = \<lparr> res_idempotencyKey = k, res_status = s, res_error = None \<rparr>"



section \<open>Properties of the billing driver\<close>

subsection \<open>Pages and attempts\<close>

lemma add_usage_sum: "add_usage tu xs = tu + sum_list (map usage_of xs)"
  by (induction xs arbitrary: tu) auto

lemma list_pages_sent:
  "list_pages n sdk c item h sa tu w = (r, w', effs) \<Longrightarrow> x \<in> set effs \<Longrightarrow>
     \<exists>sa'. x = Sent (list_request c item h sa')"
proof (induction n arbitrary: sa tu w r w' effs)
  case 0
  then show ?case by simp
next
  case (Suc n)
  from Suc.prems show ?case
    by (auto simp: Let_def split: prod.splits sum.splits if_splits dest: Suc.IH)
qed

lemma list_pages_length:
  "list_pages n sdk c item h sa tu w = (r, w', effs) \<Longrightarrow> length effs \<le> n"
proof (induction n arbitrary: sa tu w r w' effs)
  case 0
  then show ?case by simp
next
  case (Suc n)
  from Suc.prems show ?case
    by (auto simp: Let_def split: prod.splits sum.splits if_splits dest: Suc.IH)
qed

text \<open>The cursor of request \<open>i\<close> of a run of the page loop that starts from \<open>sa\<close>.\<close>

lemma cursor_shift:
  "(case Suc k of 0 \<Rightarrow> sa | Suc j \<Rightarrow> page_cursor (resp # pages) (Suc j))
     = (case k of 0 \<Rightarrow> last_id (page_data resp) | Suc j \<Rightarrow> page_cursor pages (Suc j))"
  by (cases k) (simp_all add: last_id_def)

lemma list_pages_chain:
  "list_pages n sdk c item h sa tu w = (Inr t, w', effs) \<Longrightarrow> 0 < n \<Longrightarrow>
     \<exists>pages ws. pages \<noteq> [] \<and> length pages \<le> n \<and> ws 0 = w \<and> ws (length pages) = w' \<and>
       (\<forall>i < length pages.
          listUsageRecordSummaries sdk (ws i)
            (list_request c item h (case i of 0 \<Rightarrow> sa | Suc j \<Rightarrow> page_cursor pages (Suc j)))
            = (Inr (pages ! i), ws (Suc i))) \<and>
       (\<forall>i. Suc i < length pages \<longrightarrow> has_more (pages ! i)) \<and>
       (length pages = n \<or> \<not> has_more (last pages)) \<and>
       effs = map (\<lambda>i. Sent (list_request c item h (case i of 0 \<Rightarrow> sa | Suc j \<Rightarrow> page_cursor pages (Suc j))))
                [0..<length pages] \<and>
       t = tu + sum_list (map (\<lambda>pg. sum_list (map usage_of (page_data pg))) pages)"
proof (induction n arbitrary: sa tu w effs)
  case 0
  then show ?case by simp
next
  case (Suc n)
  let ?req = "list_request c item h sa"
  obtain r w1 where call: "listUsageRecordSummaries sdk w ?req = (r, w1)"
    by (cases "listUsageRecordSummaries sdk w ?req")
  show ?case
  proof (cases r)
    case (Inl e)
    with Suc.prems call show ?thesis by (simp add: Let_def)
  next
    case (Inr resp)
    let ?tu = "add_usage tu (page_data resp)"
    have single: "t = ?tu \<Longrightarrow> w' = w1 \<Longrightarrow> effs = [Sent ?req] \<Longrightarrow>
        (Suc 0 = Suc n \<or> \<not> has_more resp) \<Longrightarrow> ?thesis"
      using call Inr
      by (intro exI[of _ "[resp]"] exI[of _ "\<lambda>i. case i of 0 \<Rightarrow> w | Suc k \<Rightarrow> w1"])
         (simp add: add_usage_sum)
    show ?thesis
    proof (cases "has_more resp")
      case False
      with Suc.prems call Inr show ?thesis by (intro single) (simp_all add: Let_def)
    next
      case True
      show ?thesis
      proof (cases n)
        case 0
        with True Suc.prems call Inr show ?thesis by (intro single) (simp_all add: Let_def)
      next
        case (Suc m)
        from True Suc.prems(1) call Inr obtain effs' where
          rest: "list_pages n sdk c item h (last_id (page_data resp)) ?tu w1 = (Inr t, w', effs')"
          and effs: "effs = Sent ?req # effs'"
          by (auto simp: Let_def split: prod.splits)
        from Suc.IH[OF rest] Suc obtain pages ws where
          p: "pages \<noteq> []" "length pages \<le> n" "ws 0 = w1" "ws (length pages) = w'"
            "\<forall>i < length pages.
              listUsageRecordSummaries sdk (ws i)
                (list_request c item h (case i of 0 \<Rightarrow> last_id (page_data resp) | Suc j \<Rightarrow> page_cursor pages (Suc j)))
                = (Inr (pages ! i), ws (Suc i))"
            "\<forall>i. Suc i < length pages \<longrightarrow> has_more (pages ! i)"
            "length pages = n \<or> \<not> has_more (last pages)"
            "effs' = map (\<lambda>i. Sent (list_request c item h (case i of 0 \<Rightarrow> last_id (page_data resp) | Suc j \<Rightarrow> page_cursor pages (Suc j))))
                [0..<length pages]"
            "t = ?tu + sum_list (map (\<lambda>pg. sum_list (map usage_of (page_data pg))) pages)"
          by auto
        let ?ws = "\<lambda>i. case i of 0 \<Rightarrow> w | Suc k \<Rightarrow> ws k"
        let ?pages = "resp # pages"
        let ?cur = "\<lambda>i. case i of 0 \<Rightarrow> sa | Suc j \<Rightarrow> page_cursor ?pages (Suc j)"
        have calls: "\<forall>i < length ?pages.
            listUsageRecordSummaries sdk (?ws i) (list_request c item h (?cur i))
              = (Inr (?pages ! i), ?ws (Suc i))"
        proof (intro allI impI)
          fix i assume i: "i < length ?pages"
          show "listUsageRecordSummaries sdk (?ws i) (list_request c item h (?cur i))
              = (Inr (?pages ! i), ?ws (Suc i))"
          proof (cases i)
            case 0
            with call Inr p(3) show ?thesis by simp
          next
            case (Suc k)
            with i have "k < length pages" by simp
            with p(5) have "listUsageRecordSummaries sdk (ws k)
                (list_request c item h (case k of 0 \<Rightarrow> last_id (page_data resp) | Suc j \<Rightarrow> page_cursor pages (Suc j)))
                = (Inr (pages ! k), ws (Suc k))" by blast
            then show ?thesis unfolding Suc cursor_shift by simp
          qed
        qed
        have more: "\<forall>i. Suc i < length ?pages \<longrightarrow> has_more (?pages ! i)"
        proof (intro allI impI)
          fix i assume "Suc i < length ?pages"
          then show "has_more (?pages ! i)" using True p(6) by (cases i) auto
        qed
        have sent: "effs = map (\<lambda>i. Sent (list_request c item h (?cur i))) [0..<length ?pages]"
        proof -
          have "map (\<lambda>i. Sent (list_request c item h (?cur i))) [0..<length ?pages]
                  = Sent ?req # map (\<lambda>k. Sent (list_request c item h (?cur (Suc k)))) [0..<length pages]"
            by (simp add: upt_conv_Cons map_Suc_upt[symmetric] del: upt_Suc)
          also have "\<dots> = Sent ?req # effs'"
            unfolding p(8) cursor_shift ..
          finally show ?thesis using effs by simp
        qed
        have stop: "length ?pages = Suc n \<or> \<not> has_more (last ?pages)"
          using p(1,7) by auto
        have tot: "t = tu + sum_list (map (\<lambda>pg. sum_list (map usage_of (page_data pg))) ?pages)"
          using p(9) by (simp add: add_usage_sum)
        have "?pages \<noteq> [] \<and> length ?pages \<le> Suc n \<and> ?ws 0 = w \<and> ?ws (length ?pages) = w'"
          using p(2,4) by simp
        with calls more sent stop tot show ?thesis
          by (intro exI[of _ ?pages] exI[of _ ?ws]) (intro conjI; blast?)
      qed
    qed
  qed
qed

lemma try_block_sent:
  "try_block sdk c item h w = (r, w', effs) \<Longrightarrow>
     \<exists>rest. effs = Sent (retrieve_request c item h) # rest \<and> length rest \<le> 5 \<and>
       (\<forall>x \<in> set rest. \<exists>sa'. x = Sent (list_request c item h sa'))"
  by (auto simp: try_block_def Let_def split: prod.splits sum.splits
           dest: list_pages_sent list_pages_length)

lemma cursor_first: "(case i of 0 \<Rightarrow> None | Suc j \<Rightarrow> page_cursor pages (Suc j)) = page_cursor pages i"
  by (cases i) simp_all

lemma try_block_chain:
  assumes "try_block sdk c item h w0 = (Inr t, w', e0)"
  shows "\<exists>pages ws.
       e0 = Sent (retrieve_request c item h)
              # map (\<lambda>i. Sent (list_request c item h (page_cursor pages i))) [0..<length pages] \<and>
       retrieve sdk w0 (retrieve_request c item h) = (Inr (), ws 0) \<and>
       1 \<le> length pages \<and> length pages \<le> 5 \<and>
       (\<forall>i < length pages.
          listUsageRecordSummaries sdk (ws i) (list_request c item h (page_cursor pages i))
            = (Inr (pages ! i), ws (Suc i))) \<and>
       (\<forall>i. Suc i < length pages \<longrightarrow> has_more (pages ! i)) \<and>
       (length pages = 5 \<or> \<not> has_more (last pages)) \<and>
       w' = ws (length pages) \<and>
       t = sum_list (map (\<lambda>pg. sum_list (map usage_of (page_data pg))) pages)"
proof -
  let ?req = "retrieve_request c item h"
  obtain r1 w1 where ret: "retrieve sdk w0 ?req = (r1, w1)" by (cases "retrieve sdk w0 ?req")
  with assms obtain u where r1: "r1 = Inr u"
    by (cases r1) (auto simp: try_block_def Let_def)
  from assms ret r1 obtain effs where
    lp: "list_pages 5 sdk c item h None 0 w1 = (Inr t, w', effs)" and e0: "e0 = Sent ?req # effs"
    by (auto simp: try_block_def Let_def split: prod.splits)
  from list_pages_chain[OF lp] obtain pages ws where
    p: "pages \<noteq> []" "length pages \<le> 5" "ws 0 = w1" "ws (length pages) = w'"
       "\<forall>i < length pages.
          listUsageRecordSummaries sdk (ws i) (list_request c item h (page_cursor pages i))
            = (Inr (pages ! i), ws (Suc i))"
       "\<forall>i. Suc i < length pages \<longrightarrow> has_more (pages ! i)"
       "length pages = 5 \<or> \<not> has_more (last pages)"
       "effs = map (\<lambda>i. Sent (list_request c item h (page_cursor pages i))) [0..<length pages]"
       "t = sum_list (map (\<lambda>pg. sum_list (map usage_of (page_data pg))) pages)"
    unfolding cursor_first by auto
  from p(1) have "1 \<le> length pages" by (cases pages) simp_all
  moreover have "retrieve sdk w0 ?req = (Inr (), ws 0)" using ret r1 p(3) by simp
  moreover have "e0 = Sent ?req # map (\<lambda>i. Sent (list_request c item h (page_cursor pages i))) [0..<length pages]"
    using e0 p(8) by simp
  moreover have "w' = ws (length pages)" using p(4) by simp
  ultimately show ?thesis using p(2,5,6,7,9)
    by (intro exI[of _ pages] exI[of _ ws]) (intro conjI; assumption)
qed

lemma loop_retry:
  "try_block sdk c item h w = (r0, w0, e0) \<Longrightarrow> may_retry r0 a \<Longrightarrow>
   getUsageSummary_loop sdk c item h (Suc a) w0 = (r1, w1, e1) \<Longrightarrow>
   getUsageSummary_loop sdk c item h a w = (r1, w1, e0 @ Sleep (2 ^ a * 250) # e1)"
  by (subst getUsageSummary_loop.simps) (simp add: Let_def)

lemma loop_stop:
  "try_block sdk c item h w = (r0, w0, e0) \<Longrightarrow> \<not> may_retry r0 a \<Longrightarrow>
   getUsageSummary_loop sdk c item h a w = (r0, w0, e0)"
  by (subst getUsageSummary_loop.simps) (simp add: Let_def)

lemma loop_final:
  "getUsageSummary_loop sdk c item h a w = (Inr t, w', effs) \<Longrightarrow>
     \<exists>w0 e0 before. try_block sdk c item h w0 = (Inr t, w', e0) \<and> effs = before @ e0 \<and>
        (before = [] \<and> w0 = w \<or> (\<exists>d. Sleep d \<in> set before))"
proof (induction sdk c item h a w arbitrary: effs rule: getUsageSummary_loop.induct)
  case (1 sdk client item headers attempt w)
  obtain r0 w0 e0 where t: "try_block sdk client item headers w = (r0, w0, e0)"
    by (cases "try_block sdk client item headers w") auto
  show ?case
  proof (cases "may_retry r0 attempt")
    case True
    obtain r1 w1 e1 where l: "getUsageSummary_loop sdk client item headers (attempt + 1) w0 = (r1, w1, e1)"
      by (cases "getUsageSummary_loop sdk client item headers (attempt + 1) w0") auto
    with loop_retry[OF t True] "1.prems"
    have r1: "r1 = Inr t" "w1 = w'" and effs: "effs = e0 @ Sleep (2 ^ attempt * 250) # e1" by auto
    from "1.IH"[OF refl _ refl, of e1] t True l r1
    obtain wf ef before where
      f: "try_block sdk client item headers wf = (Inr t, w', ef)" "e1 = before @ ef" by auto
    have "effs = (e0 @ Sleep (2 ^ attempt * 250) # before) @ ef" using effs f(2) by simp
    moreover have "\<exists>d. Sleep d \<in> set (e0 @ Sleep (2 ^ attempt * 250) # before)" by auto
    ultimately show ?thesis using f(1)
      by (intro exI[of _ wf] exI[of _ ef] exI[of _ "e0 @ Sleep (2 ^ attempt * 250) # before"]) simp
  next
    case False
    from loop_stop[OF t False] "1.prems" t have "try_block sdk client item headers w = (Inr t, w', effs)"
      by auto
    then show ?thesis by (intro exI[of _ w] exI[of _ effs] exI[of _ "[]"]) simp
  qed
qed

lemma loop_sent:
  "getUsageSummary_loop sdk c item h a w = (r, w', effs) \<Longrightarrow> Sent q \<in> set effs \<Longrightarrow>
     q = retrieve_request c item h \<or> (\<exists>sa'. q = list_request c item h sa')"
proof (induction sdk c item h a w arbitrary: r w' effs rule: getUsageSummary_loop.induct)
  case (1 sdk client item headers attempt w)
  obtain r0 w0 e0 where t: "try_block sdk client item headers w = (r0, w0, e0)"
    by (cases "try_block sdk client item headers w") auto
  from try_block_sent[OF t] have e0: "\<And>x. x \<in> set e0 \<Longrightarrow>
      x = Sent (retrieve_request client item headers) \<or> (\<exists>sa'. x = Sent (list_request client item headers sa'))"
    by auto
  show ?case
  proof (cases "may_retry r0 attempt")
    case True
    obtain r1 w1 e1 where l: "getUsageSummary_loop sdk client item headers (attempt + 1) w0 = (r1, w1, e1)"
      by (cases "getUsageSummary_loop sdk client item headers (attempt + 1) w0") auto
    from "1.prems"(1) loop_retry[OF t True] l have effs: "effs = e0 @ Sleep (2 ^ attempt * 250) # e1"
      by simp
    from "1.IH"[OF refl _ refl, of r1 w1 e1] t True l
    have "Sent q \<in> set e1 \<Longrightarrow> q = retrieve_request client item headers \<or> (\<exists>sa'. q = list_request client item headers sa')"
      by simp
    with effs e0 "1.prems"(2) show ?thesis by auto
  next
    case False
    with "1.prems"(1) loop_stop[OF t] have "effs = e0"
      by simp
    with e0 "1.prems"(2) show ?thesis by auto
  qed
qed

lemma try_block_attempts:
  "try_block sdk c item h w = (r, w', effs) \<Longrightarrow> attempts_made effs = 1 \<and> sleeps effs = []"
proof -
  assume a: "try_block sdk c item h w = (r, w', effs)"
  from try_block_sent[OF a] obtain rest where
    e: "effs = Sent (retrieve_request c item h) # rest"
       "\<forall>x \<in> set rest. \<exists>sa'. x = Sent (list_request c item h sa')" by blast
  have "filter is_retrieve rest = [] \<and> sleeps rest = []" using e(2)
    by (induction rest) (auto simp: list_request_def)
  with e(1) show ?thesis by (simp add: attempts_made_def retrieve_request_def)
qed

lemma attempts_made_append: "attempts_made (xs @ ys) = attempts_made xs + attempts_made ys"
  by (simp add: attempts_made_def)

lemma sleeps_append: "sleeps (xs @ ys) = sleeps xs @ sleeps ys"
  by (induction xs rule: sleeps.induct) auto

lemma loop_attempts:
  assumes "\<forall>i<k. try_block sdk c item h (ws i) = (Inl (es i), ws (Suc i), ls i) \<and> retryable (error_status (es i))"
      and "try_block sdk c item h (ws k) = (r, w', l)"
      and "a + k \<le> maxRetries"
      and "\<not> may_retry r (a + k)"
  shows "\<exists>effs. getUsageSummary_loop sdk c item h a (ws 0) = (r, w', effs) \<and>
           attempts_made effs = Suc k \<and> sleeps effs = map (\<lambda>i. 2 ^ (a + i) * 250) [0..<k]"
  using assms
proof (induction k arbitrary: a ws es ls)
  case 0
  from loop_stop[OF "0.prems"(2)] "0.prems"(4) try_block_attempts[OF "0.prems"(2)]
  show ?case by simp
next
  case (Suc k)
  from Suc.prems(1) have t0: "try_block sdk c item h (ws 0) = (Inl (es 0), ws (Suc 0), ls 0)"
    and r0: "retryable (error_status (es 0))" by auto
  from r0 Suc.prems(3) have m0: "may_retry (Inl (es 0)) a" by (simp add: may_retry_def)
  have "\<exists>effs. getUsageSummary_loop sdk c item h (Suc a) ((ws \<circ> Suc) 0) = (r, w', effs) \<and>
           attempts_made effs = Suc k \<and> sleeps effs = map (\<lambda>i. 2 ^ (Suc a + i) * 250) [0..<k]"
  proof (rule Suc.IH[where es = "es \<circ> Suc" and ls = "ls \<circ> Suc"])
    show "\<forall>i<k. try_block sdk c item h ((ws \<circ> Suc) i) = (Inl ((es \<circ> Suc) i), (ws \<circ> Suc) (Suc i), (ls \<circ> Suc) i) \<and>
            retryable (error_status ((es \<circ> Suc) i))"
      using Suc.prems(1) by auto
    show "try_block sdk c item h ((ws \<circ> Suc) k) = (r, w', l)" using Suc.prems(2) by simp
    show "Suc a + k \<le> maxRetries" using Suc.prems(3) by simp
    show "\<not> may_retry r (Suc a + k)" using Suc.prems(4) by simp
  qed
  then obtain e1 where l1: "getUsageSummary_loop sdk c item h (Suc a) (ws (Suc 0)) = (r, w', e1)"
    and a1: "attempts_made e1 = Suc k" and s1: "sleeps e1 = map (\<lambda>i. 2 ^ (Suc a + i) * 250) [0..<k]"
    by auto
  have shift: "map (\<lambda>i. 2 ^ (a + i) * 250) [0..<Suc k] = (2 ^ a * 250 :: nat) # map (\<lambda>i. 2 ^ (Suc a + i) * 250) [0..<k]"
    by (simp only: upt_conv_Cons[of 0 "Suc k"] map_Suc_upt[symmetric]) (simp add: comp_def)
  from loop_retry[OF t0 m0 l1] try_block_attempts[OF t0] a1 s1 shift
  show ?case
    by (simp add: attempts_made_append sleeps_append attempts_made_def del: upt_Suc)
qed


subsection \<open>The calendar\<close>

















subsection \<open>The scripted providers, evaluated\<close>

lemma flaky_try0: "try_block flaky_sdk c item h 0 = (Inl too_many_requests, 1, [Sent (retrieve_request c item h)])"
  by (simp add: try_block_def flaky_sdk_def Let_def)

lemma flaky_try1: "try_block flaky_sdk c item h (Suc 0) = (Inl too_many_requests, 2, [Sent (retrieve_request c item h)])"
  by (simp add: try_block_def flaky_sdk_def Let_def)

lemma flaky_try2: "try_block flaky_sdk c item h 2 = (Inr 10, 4, [Sent (retrieve_request c item h), Sent (list_request c item h None)])"
  by (simp add: try_block_def flaky_sdk_def Let_def eval_nat_numeral two_summaries_def usage_of_def)

lemma flaky_first_two:
  "\<forall>i<2. try_block flaky_sdk c item h ((\<lambda>i. i) i)
            = (Inl ((\<lambda>i. too_many_requests) i), (\<lambda>i. i) (Suc i), (\<lambda>i. [Sent (retrieve_request c item h)]) i)
          \<and> (error_status ((\<lambda>i. too_many_requests) i) = 429 \<or>
             (500 \<le> error_status ((\<lambda>i. too_many_requests) i) \<and>
              error_status ((\<lambda>i. too_many_requests) i) < 600))"
  by (auto simp: less_2_cases_iff flaky_try0 flaky_try1 error_status_def too_many_requests_def)




lemma paged_try:
  "try_block paged_sdk c item h 0
     = (Inr 12, 3, [Sent (retrieve_request c item h), Sent (list_request c item h None),
                    Sent (list_request c item h (Some ''urs_2''))])"
  by (simp add: try_block_def paged_sdk_def Let_def eval_nat_numeral page_after_def
        list_request_def first_page_def second_page_def usage_of_def last_id_def)

lemma endless_try:
  "try_block endless_sdk c item h 0
     = (Inr 35, 6, [Sent (retrieve_request c item h), Sent (list_request c item h None),
                    Sent (list_request c item h (Some ''urs_n'')),
                    Sent (list_request c item h (Some ''urs_n'')),
                    Sent (list_request c item h (Some ''urs_n'')),
                    Sent (list_request c item h (Some ''urs_n''))])"
  by (simp add: try_block_def endless_sdk_def Let_def eval_nat_numeral endless_page_def
        usage_of_def last_id_def)

lemma paged_summary:
  "getUsageSummary paged_sdk (new_driver None both_keys) ''si_123'' ''2025-01-01'' ''acct_123'' 0
     = (Inr \<lparr> us_subscriptionItemId = ''si_123'', us_stripeAccount = ''acct_123'',
              us_periodStart = ''2025-01-01'', totalUsage = 12 \<rparr>, 3,
        [Sent \<lparr> req_client = Stripe ''sk_live'', req_call = RetrieveItem ''si_123'',
                req_options = \<lparr> opt_idempotencyKey = None, opt_stripeAccount = Some ''acct_123'' \<rparr> \<rparr>,
         Sent \<lparr> req_client = Stripe ''sk_live'',
                req_call = ListUsageRecordSummaries ''si_123'' 100 None,
                req_options = \<lparr> opt_idempotencyKey = None, opt_stripeAccount = Some ''acct_123'' \<rparr> \<rparr>,
         Sent \<lparr> req_client = Stripe ''sk_live'',
                req_call = ListUsageRecordSummaries ''si_123'' 100 (Some ''urs_2''),
                req_options = \<lparr> opt_idempotencyKey = None, opt_stripeAccount = Some ''acct_123'' \<rparr> \<rparr>])"
proof -
  have "\<not> may_retry (Inr 12) 0" by (simp add: may_retry_def)
  from loop_stop[OF paged_try this]
  show ?thesis
    by (simp add: getUsageSummary_def Let_def new_driver_def resolved_liveKey_def
          resolved_testKey_def opt_field_def both_keys_def account_header_def
          retrieve_request_def list_request_def)
qed

lemma endless_summary:
  "\<exists>effs. getUsageSummary endless_sdk (new_driver None both_keys) ''si_123'' ''2025-01-01'' ''acct_123'' 0
     = (Inr \<lparr> us_subscriptionItemId = ''si_123'', us_stripeAccount = ''acct_123'',
              us_periodStart = ''2025-01-01'', totalUsage = 35 \<rparr>, 6, effs) \<and> length effs = 6"
proof -
  have "\<not> may_retry (Inr 35) 0" by (simp add: may_retry_def)
  from loop_stop[OF endless_try this]
  show ?thesis
    by (simp add: getUsageSummary_def Let_def)
qed

subsection \<open>The usage record of a push\<close>




subsection \<open>Retries\<close>

text \<open>
  C4, as the code has it. In \<open>getUsageSummary\<close>, when the first \<open>k \<le> 3\<close> attempts fail
  with HTTP 429 or 5xx and attempt \<open>k + 1\<close> succeeds, fails with another status, or is the
  fourth one, the call ends with the outcome of that attempt after exactly \<open>k + 1\<close>
  attempts, having slept \<open>250, 500, ...\<close> ms (doubling) between them: 3 retries at most.
  \<open>recordUsage\<close> has no retry: an error of its single request, 429 included, is returned
  at once.
\<close>

theorem C4_retry_in_getUsageSummary_only:
  assumes "\<forall>i<k. try_block sdk (stripeLive drv) item
                    \<lparr> opt_idempotencyKey = None, opt_stripeAccount = account_header account \<rparr> (ws i)
                  = (Inl (es i), ws (Suc i), ls i) \<and>
                (error_status (es i) = 429 \<or> (500 \<le> error_status (es i) \<and> error_status (es i) < 600))"
      and "try_block sdk (stripeLive drv) item
             \<lparr> opt_idempotencyKey = None, opt_stripeAccount = account_header account \<rparr> (ws k) = (r, w', l)"
      and "k \<le> 3"
      and "k = 3 \<or> (\<forall>e. r = Inl e \<longrightarrow>
                     \<not> (error_status e = 429 \<or> (500 \<le> error_status e \<and> error_status e < 600)))"
  shows "(\<exists>effs. getUsageSummary sdk drv item period account (ws 0)
                   = (summary_of item period account r, w', effs) \<and>
                 attempts_made effs = Suc k \<and>
                 sleeps effs = map (\<lambda>i. 2 ^ i * 250) [0..<k]) \<and>
         (\<forall>client e v v'. clientForMode drv (mode params) = Inr client \<longrightarrow>
              createUsageRecord sdk v (recordUsage_request heur client params) = (Inl e, v') \<longrightarrow>
              recordUsage heur sdk drv params v
                = (Inl (ApiError e), v', [Sent (recordUsage_request heur client params)]))"
proof -
  let ?h = "\<lparr> opt_idempotencyKey = None, opt_stripeAccount = account_header account \<rparr>"
  have stop: "\<not> may_retry r (0 + k)"
    using assms(4) by (auto simp: may_retry_def maxRetries_def retryable_def split: sum.splits)
  have failed: "\<forall>i<k. try_block sdk (stripeLive drv) item ?h (ws i) = (Inl (es i), ws (Suc i), ls i) \<and>
                  retryable (error_status (es i))"
    using assms(1) by (simp add: retryable_def)
  have "0 + k \<le> maxRetries" using assms(3) by (simp add: maxRetries_def)
  from loop_attempts[OF failed assms(2) this stop]
  obtain effs where "getUsageSummary_loop sdk (stripeLive drv) item ?h 0 (ws 0) = (r, w', effs)"
    and "attempts_made effs = Suc k" and "sleeps effs = map (\<lambda>i. 2 ^ i * 250) [0..<k]"
    by auto
  then have "\<exists>effs. getUsageSummary sdk drv item period account (ws 0)
                   = (summary_of item period account r, w', effs) \<and>
                 attempts_made effs = Suc k \<and>
                 sleeps effs = map (\<lambda>i. 2 ^ i * 250) [0..<k]"
    by (auto simp: getUsageSummary_def summary_of_def Let_def split: sum.splits)
  moreover have "\<forall>client e v v'. clientForMode drv (mode params) = Inr client \<longrightarrow>
              createUsageRecord sdk v (recordUsage_request heur client params) = (Inl e, v') \<longrightarrow>
              recordUsage heur sdk drv params v
                = (Inl (ApiError e), v', [Sent (recordUsage_request heur client params)])"
    by (simp add: recordUsage_def Let_def)
  ultimately show ?thesis by blast
qed

text \<open>
  C4 at the provider that answers 429 twice and then succeeds: three attempts, sleeps
  of 250 and 500 ms, and the summary.
\<close>

theorem C4_witness:
  "\<exists>effs. getUsageSummary flaky_sdk (new_driver None both_keys) ''si_123'' ''2025-01-01'' ''default'' 0
            = (Inr \<lparr> us_subscriptionItemId = ''si_123'', us_stripeAccount = ''default'',
                     us_periodStart = ''2025-01-01'', totalUsage = 10 \<rparr>, 4, effs) \<and>
          attempts_made effs = 3 \<and> sleeps effs = [250, 500]"
proof -
  have three: "(2::nat) \<le> 3" by simp
  have stop: "(2::nat) = 3 \<or> (\<forall>e. (Inr 10 :: api_error + int) = Inl e \<longrightarrow>
                     \<not> (error_status e = 429 \<or> (500 \<le> error_status e \<and> error_status e < 600)))"
    by simp
  have delays: "map (\<lambda>i. 2 ^ i * 250) [0..<2] = [250, 500 :: nat]"
    by (simp add: upt_rec)
  from C4_retry_in_getUsageSummary_only [where sdk = flaky_sdk and drv = "new_driver None both_keys"
      and item = "''si_123''" and account = "''default''" and period = "''2025-01-01''"
      and k = 2 and ws = "\<lambda>i. i" and es = "\<lambda>i. too_many_requests"
      and ls = "\<lambda>i. [Sent (retrieve_request (stripeLive (new_driver None both_keys)) ''si_123''
                 \<lparr> opt_idempotencyKey = None, opt_stripeAccount = account_header ''default'' \<rparr>)]"
      and r = "Inr 10" and w' = 4, OF flaky_first_two flaky_try2 three stop]
  show ?thesis
    by (simp only: delays) (simp add: summary_of_def)
qed

text \<open>
  C4 as stated fails for \<open>recordUsage\<close>: when the provider answers 429, the error is
  returned after one request (the world has seen exactly one), with no retry.
\<close>

theorem C4_recordUsage_counterexample:
  "recordUsage strict_engine flaky_sdk (new_driver None both_keys) (push_params Live) 0
     = (Inl (ApiError too_many_requests), 1,
        [Sent (recordUsage_request strict_engine (Stripe ''sk_live'') (push_params Live))]) \<and>
   error_status too_many_requests = 429"
  by (simp add: recordUsage_def clientForMode_def new_driver_def resolved_liveKey_def
        resolved_testKey_def opt_field_def both_keys_def push_params_def flaky_sdk_def
        error_status_def too_many_requests_def Let_def)

subsection \<open>Mode selection\<close>

text \<open>
  C8. On a driver constructed without a test credential (neither the option nor the
  environment gives a non-empty test key), every operation requested with mode test
  (\<open>recordUsage\<close> with mode \<open>Test\<close>, \<open>createTestClock\<close>, \<open>advanceTestClock\<close>) fails
  with the configuration error, leaves the world unchanged and sends no request: it
  never falls back to the live client. With a test credential, mode test selects the
  test client; mode live always selects the live client.
\<close>

theorem C8_test_mode_needs_test_credential:
  "(resolved_testKey opts penv = [] \<longrightarrow>
      clientForMode (new_driver opts penv) Test
        = Inl (NotConfigured ''Stripe test client not configured (STRIPE_TEST_SECRET_KEY missing)'') \<and>
      (mode params = Test \<longrightarrow>
         recordUsage heur sdk (new_driver opts penv) params w
           = (Inl (NotConfigured ''Stripe test client not configured (STRIPE_TEST_SECRET_KEY missing)''), w, [])) \<and>
      createTestClock sdk (new_driver opts penv) frozenTime name w
        = (Inl (NotConfigured ''Stripe test client not configured (STRIPE_TEST_SECRET_KEY missing)''), w, []) \<and>
      advanceTestClock sdk (new_driver opts penv) clockId frozenTime w
        = (Inl (NotConfigured ''Stripe test client not configured (STRIPE_TEST_SECRET_KEY missing)''), w, [])) \<and>
   (resolved_testKey opts penv \<noteq> [] \<longrightarrow>
      clientForMode (new_driver opts penv) Test = Inr (Stripe (resolved_testKey opts penv))) \<and>
   clientForMode (new_driver opts penv) Live = Inr (Stripe (resolved_liveKey opts penv))"
  by (simp add: clientForMode_def new_driver_def recordUsage_def createTestClock_def
        advanceTestClock_def Let_def)

text \<open>C8 at a driver built from an environment with and without a test key.\<close>

theorem C8_witness:
  "recordUsage strict_engine ok_sdk (new_driver None live_key_only) (push_params Test) 0
     = (Inl (NotConfigured ''Stripe test client not configured (STRIPE_TEST_SECRET_KEY missing)''), 0, []) \<and>
   clientForMode (new_driver None both_keys) Test = Inr (Stripe ''sk_test'') \<and>
   clientForMode (new_driver None both_keys) Live = Inr (Stripe ''sk_live'')"
  using C8_test_mode_needs_test_credential [of None live_key_only "push_params Test" strict_engine ok_sdk 0]
        C8_test_mode_needs_test_credential [of None both_keys]
  by (simp add: resolved_testKey_def resolved_liveKey_def opt_field_def live_key_only_def
        both_keys_def push_params_def)

subsection \<open>Usage summaries\<close>

text \<open>
  C10. Every request of a \<open>getUsageSummary\<close> call goes through the live client, whether
  or not a test client is configured, and is either the \<open>retrieve\<close> of the item or a
  listing with limit 100. A call that returns a summary ends with one attempt that
  went through: the \<open>retrieve\<close>, then between one and five listings, each continuing
  after the last summary of the page before and each answered with a page, every page
  but the last announcing more; the listings stop at a page that announces no more,
  or at the fifth. The \<open>totalUsage\<close> returned is the sum, over exactly these pages, of
  the \<open>total_usage\<close> of their summaries, an absent one counting 0. That attempt starts
  in the state of the world in which the call was made, unless the call slept before it
  (it retried).
\<close>

theorem C10_summary_uses_live_client:
  assumes "getUsageSummary sdk drv item period account w = (r, w', effs)"
  shows "(\<forall>q. Sent q \<in> set effs \<longrightarrow>
            req_client q = stripeLive drv \<and>
            (req_call q = RetrieveItem item \<or> (\<exists>sa. req_call q = ListUsageRecordSummaries item 100 sa))) \<and>
         (\<forall>s. r = Inr s \<longrightarrow>
            (\<exists>pages ws w0 before.
               effs = before @
                 Sent \<lparr> req_client = stripeLive drv, req_call = RetrieveItem item,
                        req_options = \<lparr> opt_idempotencyKey = None,
                                        opt_stripeAccount = account_header account \<rparr> \<rparr>
                 # map (\<lambda>i. Sent \<lparr> req_client = stripeLive drv,
                                    req_call = ListUsageRecordSummaries item 100 (page_cursor pages i),
                                    req_options = \<lparr> opt_idempotencyKey = None,
                                                    opt_stripeAccount = account_header account \<rparr> \<rparr>)
                     [0..<length pages] \<and>
               (before = [] \<and> w0 = w \<or> (\<exists>d. Sleep d \<in> set before)) \<and>
               retrieve sdk w0
                 \<lparr> req_client = stripeLive drv, req_call = RetrieveItem item,
                   req_options = \<lparr> opt_idempotencyKey = None,
                                   opt_stripeAccount = account_header account \<rparr> \<rparr> = (Inr (), ws 0) \<and>
               1 \<le> length pages \<and> length pages \<le> 5 \<and>
               (\<forall>i < length pages.
                  listUsageRecordSummaries sdk (ws i)
                    \<lparr> req_client = stripeLive drv,
                      req_call = ListUsageRecordSummaries item 100 (page_cursor pages i),
                      req_options = \<lparr> opt_idempotencyKey = None,
                                      opt_stripeAccount = account_header account \<rparr> \<rparr>
                    = (Inr (pages ! i), ws (Suc i))) \<and>
               (\<forall>i. Suc i < length pages \<longrightarrow> has_more (pages ! i)) \<and>
               (length pages = 5 \<or> \<not> has_more (last pages)) \<and>
               w' = ws (length pages) \<and>
               s = \<lparr> us_subscriptionItemId = item, us_stripeAccount = account, us_periodStart = period,
                     totalUsage =
                       sum_list (map (\<lambda>pg. sum_list (map (\<lambda>x. case total_usage x of None \<Rightarrow> 0 | Some u \<Rightarrow> u)
                                                       (page_data pg))) pages) \<rparr>))"
proof -
  let ?h = "\<lparr> opt_idempotencyKey = None, opt_stripeAccount = account_header account \<rparr>"
  obtain r0 where l: "getUsageSummary_loop sdk (stripeLive drv) item ?h 0 w = (r0, w', effs)"
    and r: "r = summary_of item period account r0"
    using assms by (auto simp: getUsageSummary_def summary_of_def Let_def split: prod.splits sum.splits)
  have live: "\<forall>q. Sent q \<in> set effs \<longrightarrow>
            req_client q = stripeLive drv \<and>
            (req_call q = RetrieveItem item \<or> (\<exists>sa. req_call q = ListUsageRecordSummaries item 100 sa))"
  proof (intro allI impI)
    fix q assume "Sent q \<in> set effs"
    from loop_sent[OF l this]
    show "req_client q = stripeLive drv \<and>
            (req_call q = RetrieveItem item \<or> (\<exists>sa. req_call q = ListUsageRecordSummaries item 100 sa))"
      by (auto simp: retrieve_request_def list_request_def)
  qed
  have pages: "\<exists>pages ws w0 before.
               effs = before @ Sent \<lparr> req_client = stripeLive drv, req_call = RetrieveItem item, req_options = ?h \<rparr>
                 # map (\<lambda>i. Sent \<lparr> req_client = stripeLive drv,
                                    req_call = ListUsageRecordSummaries item 100 (page_cursor pages i),
                                    req_options = ?h \<rparr>) [0..<length pages] \<and>
               (before = [] \<and> w0 = w \<or> (\<exists>d. Sleep d \<in> set before)) \<and>
               retrieve sdk w0 \<lparr> req_client = stripeLive drv, req_call = RetrieveItem item, req_options = ?h \<rparr>
                 = (Inr (), ws 0) \<and>
               1 \<le> length pages \<and> length pages \<le> 5 \<and>
               (\<forall>i < length pages.
                  listUsageRecordSummaries sdk (ws i)
                    \<lparr> req_client = stripeLive drv,
                      req_call = ListUsageRecordSummaries item 100 (page_cursor pages i),
                      req_options = ?h \<rparr>
                    = (Inr (pages ! i), ws (Suc i))) \<and>
               (\<forall>i. Suc i < length pages \<longrightarrow> has_more (pages ! i)) \<and>
               (length pages = 5 \<or> \<not> has_more (last pages)) \<and>
               w' = ws (length pages) \<and>
               s = \<lparr> us_subscriptionItemId = item, us_stripeAccount = account, us_periodStart = period,
                     totalUsage =
                       sum_list (map (\<lambda>pg. sum_list (map (\<lambda>x. case total_usage x of None \<Rightarrow> 0 | Some u \<Rightarrow> u)
                                                       (page_data pg))) pages) \<rparr>"
    if "r = Inr s" for s
  proof -
    from that r obtain tu where tu: "r0 = Inr tu"
      and s: "s = \<lparr> us_subscriptionItemId = item, us_stripeAccount = account, us_periodStart = period,
                    totalUsage = tu \<rparr>"
      by (auto simp: summary_of_def split: sum.splits)
    from l tu have "getUsageSummary_loop sdk (stripeLive drv) item ?h 0 w = (Inr tu, w', effs)" by simp
    from loop_final[OF this] obtain w0 e0 before where
      f: "try_block sdk (stripeLive drv) item ?h w0 = (Inr tu, w', e0)" "effs = before @ e0"
         "before = [] \<and> w0 = w \<or> (\<exists>d. Sleep d \<in> set before)"
      by blast
    from try_block_chain[OF f(1)] obtain pages ws where
      p: "e0 = Sent (retrieve_request (stripeLive drv) item ?h)
              # map (\<lambda>i. Sent (list_request (stripeLive drv) item ?h (page_cursor pages i))) [0..<length pages]"
         "retrieve sdk w0 (retrieve_request (stripeLive drv) item ?h) = (Inr (), ws 0)"
         "1 \<le> length pages" "length pages \<le> 5"
         "\<forall>i < length pages.
            listUsageRecordSummaries sdk (ws i) (list_request (stripeLive drv) item ?h (page_cursor pages i))
              = (Inr (pages ! i), ws (Suc i))"
         "\<forall>i. Suc i < length pages \<longrightarrow> has_more (pages ! i)"
         "length pages = 5 \<or> \<not> has_more (last pages)"
         "w' = ws (length pages)"
         "tu = sum_list (map (\<lambda>pg. sum_list (map usage_of (page_data pg))) pages)"
      by blast
    have u: "usage_of = (\<lambda>x. case total_usage x of None \<Rightarrow> 0 | Some u \<Rightarrow> u)"
      by (rule ext) (simp add: usage_of_def)
    show ?thesis
      using f(2,3) p s unfolding retrieve_request_def list_request_def u
      by (intro exI[of _ pages] exI[of _ ws] exI[of _ w0] exI[of _ before]) (intro conjI; simp)
  qed
  from live pages show ?thesis by blast
qed

text \<open>
  C10 at a driver that has a test client: against the provider with two pages, where
  the second listing continues after \<open>urs_2\<close> and the total is 10 + 0 + 2, and against
  the provider that always announces more, where the listings stop at the fifth page.
\<close>

theorem C10_witness:
  "stripeTest (new_driver None both_keys) = Some (Stripe ''sk_test'') \<and>
   stripeLive (new_driver None both_keys) = Stripe ''sk_live'' \<and>
   getUsageSummary paged_sdk (new_driver None both_keys) ''si_123'' ''2025-01-01'' ''acct_123'' 0
     = (Inr \<lparr> us_subscriptionItemId = ''si_123'', us_stripeAccount = ''acct_123'',
              us_periodStart = ''2025-01-01'', totalUsage = 12 \<rparr>, 3,
        [Sent \<lparr> req_client = Stripe ''sk_live'', req_call = RetrieveItem ''si_123'',
                req_options = \<lparr> opt_idempotencyKey = None, opt_stripeAccount = Some ''acct_123'' \<rparr> \<rparr>,
         Sent \<lparr> req_client = Stripe ''sk_live'',
                req_call = ListUsageRecordSummaries ''si_123'' 100 None,
                req_options = \<lparr> opt_idempotencyKey = None, opt_stripeAccount = Some ''acct_123'' \<rparr> \<rparr>,
         Sent \<lparr> req_client = Stripe ''sk_live'',
                req_call = ListUsageRecordSummaries ''si_123'' 100 (Some ''urs_2''),
                req_options = \<lparr> opt_idempotencyKey = None, opt_stripeAccount = Some ''acct_123'' \<rparr> \<rparr>]) \<and>
   (\<exists>effs. getUsageSummary endless_sdk (new_driver None both_keys) ''si_123'' ''2025-01-01'' ''acct_123'' 0
     = (Inr \<lparr> us_subscriptionItemId = ''si_123'', us_stripeAccount = ''acct_123'',
              us_periodStart = ''2025-01-01'', totalUsage = 35 \<rparr>, 6, effs) \<and> length effs = 6)"
  using C10_summary_uses_live_client [OF paged_summary] paged_summary endless_summary
  by (simp add: new_driver_def resolved_liveKey_def resolved_testKey_def opt_field_def both_keys_def)
section \<open>Properties of the push idempotency key\<close>

lemma digit_char_digit: "is_digit (digit_char n)"
proof -
  have "n mod 10 < length ''0123456789''" by simp
  then show ?thesis unfolding digit_char_def is_digit_def by (rule nth_mem)
qed

lemma show_nat_digits: "list_all is_digit (show_nat n)"
proof (induction n rule: show_nat.induct)
  case (1 n)
  show ?case
  proof (cases "n < 10")
    case True
    then show ?thesis using digit_char_digit[of n] by (subst show_nat.simps) simp
  next
    case False
    with 1 digit_char_digit[of n] show ?thesis by (subst show_nat.simps) simp
  qed
qed

lemma pad6_digits: "length (pad6 n) = 6 \<and> list_all is_digit (pad6 n)"
  by (simp add: pad6_def digit_char_digit)

lemma toFixed6_example: "toFixed6 \<lparr> mantissa = 1005, scale = 1 \<rparr> = ''100.500000''"
proof -
  have n: "nat ((2 * \<bar>1005\<bar> * 10 ^ 6 + 10 ^ 1) div (2 * 10 ^ 1)) = 100500000" by simp
  have s: "show_nat 100 = ''100''" by (simp add: show_nat.simps digit_char_def)
  have p: "pad6 100500000 = ''500000''" by (simp add: pad6_def digit_char_def)
  have d: "(100500000::nat) div 1000000 = 100" by simp
  show ?thesis unfolding toFixed6_def Let_def by (simp only: decimal.simps n d s p) simp
qed

text \<open>
  C2. The push idempotency key is \<open>push:\<close> followed by tenant, subscription item,
  period start and the quantity, separated by \<open>:\<close>; the quantity is written as an
  optional sign, at least one digit, a point and exactly six digits; and for quantity 100.5 and
  period 2025-01-01 the key is \<open>push:T:S:2025-01-01:100.500000\<close>, whatever T and S are
  and however often it is computed.
\<close>

theorem C2_push_key_format:
  "generateStripeIdempotencyKey T S P q = ''push:'' @ T @ '':'' @ S @ '':'' @ P @ '':'' @ toFixed6 q \<and>
   (\<exists>sign ip fr. toFixed6 q = sign @ ip @ ''.'' @ fr \<and> (sign = [] \<or> sign = ''-'') \<and>
      ip \<noteq> [] \<and> list_all is_digit ip \<and> length fr = 6 \<and> list_all is_digit fr) \<and>
   generateStripeIdempotencyKey T S ''2025-01-01'' \<lparr> mantissa = 1005, scale = 1 \<rparr>
     = ''push:'' @ T @ '':'' @ S @ '':2025-01-01:100.500000''"
proof -
  let ?n = "nat ((2 * \<bar>mantissa q\<bar> * 10 ^ 6 + 10 ^ scale q) div (2 * 10 ^ scale q))"
  let ?sign = "(if mantissa q < 0 then ''-'' else [])"
  have ne: "show_nat k \<noteq> []" for k by (subst show_nat.simps) simp
  have "toFixed6 q = ?sign @ show_nat (?n div 1000000) @ ''.'' @ pad6 ?n"
    by (simp add: toFixed6_def Let_def)
  moreover have "?sign = [] \<or> ?sign = ''-''" by simp
  ultimately have shape: "\<exists>sign ip fr. toFixed6 q = sign @ ip @ ''.'' @ fr \<and> (sign = [] \<or> sign = ''-'') \<and>
      ip \<noteq> [] \<and> list_all is_digit ip \<and> length fr = 6 \<and> list_all is_digit fr"
    using pad6_digits[of ?n] show_nat_digits[of "?n div 1000000"] ne[of "?n div 1000000"] by blast
  show ?thesis using shape
    by (simp only: generateStripeIdempotencyKey_def toFixed6_example) simp
qed

text \<open>C2 on the mapping of the writer's test.\<close>

theorem C2_witness:
  "generateStripeIdempotencyKey ''123e4567-e89b-12d3-a456-426614174000'' ''si_ABC123'' ''2025-01-01''
      \<lparr> mantissa = 1005, scale = 1 \<rparr>
     = ''push:123e4567-e89b-12d3-a456-426614174000:si_ABC123:2025-01-01:100.500000''"
  using C2_push_key_format [of "''123e4567-e89b-12d3-a456-426614174000''" "''si_ABC123''",
      THEN conjunct2, THEN conjunct2]
  by simp

section \<open>Properties of the ingestion route\<close>

subsection \<open>The loop over the batch\<close>

lemma process_events_nth:
  "process_events gen env request auth hdr clock i batch = Inr outs \<Longrightarrow>
     length outs = length batch \<and>
     (\<forall>j < length batch. outs ! j = process_event gen env auth hdr (clock (i + j)) (i + j) (batch ! j))"
proof (induction batch arbitrary: i outs)
  case Nil
  then show ?case by simp
next
  case (Cons ev rest)
  from Cons.prems obtain outs' where
    rest: "process_events gen env request auth hdr clock (Suc i) rest = Inr outs'"
    and outs: "outs = process_event gen env auth hdr (clock i) i ev # outs'"
    by (auto split: option.splits sum.splits)
  from Cons.IH[OF rest] have len: "length outs' = length rest"
    and nth: "\<forall>j < length rest. outs' ! j = process_event gen env auth hdr (clock (Suc i + j)) (Suc i + j) (rest ! j)"
    by auto
  show ?case
  proof (intro conjI allI impI)
    show "length outs = length (ev # rest)" using outs len by simp
  next
    fix j assume "j < length (ev # rest)"
    then show "outs ! j = process_event gen env auth hdr (clock (i + j)) (i + j) ((ev # rest) ! j)"
      using outs nth by (cases j) auto
  qed
qed

lemma process_events_checks:
  "process_events gen env request auth hdr clock i batch = Inr outs \<Longrightarrow> ev \<in> set batch \<Longrightarrow>
     requireTenantMatch env request (Some (ev_tenantId ev)) = None"
  by (induction batch arbitrary: i outs) (auto split: option.splits sum.splits)

lemma process_events_reject:
  "\<forall>ev \<in> set batch. requireTenantMatch env request (Some (ev_tenantId ev)) \<in> {None, Some reply} \<Longrightarrow>
   \<exists>ev \<in> set batch. requireTenantMatch env request (Some (ev_tenantId ev)) = Some reply \<Longrightarrow>
   process_events gen env request auth hdr clock i batch = Inl reply"
proof (induction batch arbitrary: i)
  case Nil
  then show ?case by simp
next
  case (Cons ev rest)
  show ?case
  proof (cases "requireTenantMatch env request (Some (ev_tenantId ev))")
    case (Some r)
    with Cons.prems(1) have "r = reply" by auto
    with Some show ?thesis by simp
  next
    case None
    with Cons.prems have "\<exists>ev \<in> set rest. requireTenantMatch env request (Some (ev_tenantId ev)) = Some reply"
      by auto
    moreover from Cons.prems(1) have "\<forall>ev \<in> set rest. requireTenantMatch env request (Some (ev_tenantId ev)) \<in> {None, Some reply}"
      by auto
    ultimately have "process_events gen env request auth hdr clock (Suc i) rest = Inl reply"
      using Cons.IH by blast
    with None show ?thesis by simp
  qed
qed

lemma eventsToInsert_of_set:
  "set (eventsToInsert_of outs) = {s. ToInsert s \<in> set outs}"
  by (induction outs rule: eventsToInsert_of.induct) auto



lemma force_tenant_ts [simp]: "ev_ts (force_tenant env auth ev) = ev_ts ev"
  by (simp add: force_tenant_def)

lemma outcome_at:
  assumes "process_events gen env request auth (headerIdempotencyKey (idempotency_key_header request))
             clock 0 (events request) = Inr outs"
      and "j < length (events request)"
  shows "length outs = length (events request)"
    and "too_far_ahead clock request j \<Longrightarrow>
           outs ! j = Rejected \<lparr> err_index = j, err_error = ''Event timestamp too far in the future'' \<rparr>
                        \<lparr> res_idempotencyKey = key_at gen env auth request j, res_status = Error,
                          res_error = Some ''Event timestamp too far in the future'' \<rparr>"
    and "\<not> too_far_ahead clock request j \<Longrightarrow> outs ! j = ToInsert (stored_at gen env auth request j)"
  using process_events_nth[OF assms(1)] assms(2)
  by (auto simp: process_event_def Let_def too_far_ahead_def key_at_def stored_at_def event_at_def)

lemma to_insert_origin:
  assumes "process_events gen env request auth (headerIdempotencyKey (idempotency_key_header request))
             clock 0 (events request) = Inr outs"
      and "s \<in> set (eventsToInsert_of outs)"
  shows "\<exists>j < length (events request). \<not> too_far_ahead clock request j \<and> s = stored_at gen env auth request j"
proof -
  from assms(2) have "ToInsert s \<in> set outs" by (simp add: eventsToInsert_of_set)
  then obtain j where j: "j < length outs" "outs ! j = ToInsert s" by (auto simp: in_set_conv_nth)
  with process_events_nth[OF assms(1)] have jn: "j < length (events request)"
    by simp
  show ?thesis
  proof (cases "too_far_ahead clock request j")
    case True
    from outcome_at(2)[OF assms(1) jn True] j(2) show ?thesis by simp
  next
    case False
    from outcome_at(3)[OF assms(1) jn False] j(2) jn False show ?thesis by auto
  qed
qed



subsection \<open>Persistence\<close>

lemma upsertBatch_sets:
  "upsertBatch rows es = (inserted, dups, rows') \<Longrightarrow>
     set inserted \<subseteq> set es \<and> set dups \<subseteq> se_idempotencyKey ` set es \<and> rows' = rows @ inserted"
proof (induction es arbitrary: rows inserted dups rows')
  case Nil
  then show ?case by simp
next
  case (Cons e es)
  show ?case
  proof (cases "se_idempotencyKey e \<in> se_idempotencyKey ` set rows")
    case True
    with Cons.prems obtain d' where r: "upsertBatch rows es = (inserted, d', rows')"
      and d: "dups = se_idempotencyKey e # d'"
      by (auto split: prod.splits)
    from Cons.IH[OF r] d show ?thesis by auto
  next
    case False
    with Cons.prems obtain i' where r: "upsertBatch (rows @ [e]) es = (i', dups, rows')"
      and i: "inserted = e # i'"
      by (auto split: prod.splits)
    from Cons.IH[OF r] i show ?thesis by auto
  qed
qed

lemma upsertBatch_keys:
  "upsertBatch rows es = (inserted, dups, rows') \<Longrightarrow>
     se_idempotencyKey ` set rows' = se_idempotencyKey ` set rows \<union> se_idempotencyKey ` set es"
proof (induction es arbitrary: rows inserted dups rows')
  case Nil
  then show ?case by simp
next
  case (Cons e es)
  show ?case
  proof (cases "se_idempotencyKey e \<in> se_idempotencyKey ` set rows")
    case True
    with Cons.prems obtain d' where r: "upsertBatch rows es = (inserted, d', rows')"
      by (auto split: prod.splits)
    from Cons.IH[OF r] True show ?thesis by auto
  next
    case False
    with Cons.prems obtain i' where r: "upsertBatch (rows @ [e]) es = (i', dups, rows')"
      by (auto split: prod.splits)
    from Cons.IH[OF r]
    have "se_idempotencyKey ` set rows' = se_idempotencyKey ` set (rows @ [e]) \<union> se_idempotencyKey ` set es" .
    then show ?thesis by auto
  qed
qed

lemma upsertBatch_length:
  "upsertBatch rows es = (inserted, dups, rows') \<Longrightarrow> length inserted + length dups = length es"
proof (induction es arbitrary: rows inserted dups rows')
  case Nil
  then show ?case by simp
next
  case (Cons e es)
  show ?case
  proof (cases "se_idempotencyKey e \<in> se_idempotencyKey ` set rows")
    case True
    with Cons.prems obtain d' where r: "upsertBatch rows es = (inserted, d', rows')"
      and d: "dups = se_idempotencyKey e # d'"
      by (auto split: prod.splits)
    from Cons.IH[OF r] d show ?thesis by simp
  next
    case False
    with Cons.prems obtain i' where r: "upsertBatch (rows @ [e]) es = (i', dups, rows')"
      and i: "inserted = e # i'"
      by (auto split: prod.splits)
    from Cons.IH[OF r] i show ?thesis by simp
  qed
qed

lemma upsertBatch_new:
  "upsertBatch rows es = (inserted, dups, rows') \<Longrightarrow>
     \<forall>e \<in> set inserted. se_idempotencyKey e \<notin> se_idempotencyKey ` set rows"
proof (induction es arbitrary: rows inserted dups rows')
  case Nil
  then show ?case by simp
next
  case (Cons e es)
  show ?case
  proof (cases "se_idempotencyKey e \<in> se_idempotencyKey ` set rows")
    case True
    with Cons.prems obtain d' where r: "upsertBatch rows es = (inserted, d', rows')"
      by (auto split: prod.splits)
    from Cons.IH[OF r] show ?thesis .
  next
    case False
    with Cons.prems obtain i' where r: "upsertBatch (rows @ [e]) es = (i', dups, rows')"
      and i: "inserted = e # i'"
      by (auto split: prod.splits)
    from Cons.IH[OF r] i False show ?thesis by auto
  qed
qed

lemma simulate_idempotency_props:
  "simulate_idempotency keys es = (inserted, dups, keys') \<Longrightarrow>
     set inserted \<subseteq> set es \<and> set dups \<subseteq> se_idempotencyKey ` set es \<and>
     keys' = keys \<union> se_idempotencyKey ` set es \<and>
     length inserted + length dups = length es"
proof (induction es arbitrary: keys inserted dups keys')
  case Nil
  then show ?case by simp
next
  case (Cons e es)
  show ?case
  proof (cases "se_idempotencyKey e \<in> keys")
    case True
    with Cons.prems obtain d' where r: "simulate_idempotency keys es = (inserted, d', keys')"
      and d: "dups = se_idempotencyKey e # d'"
      by (auto split: prod.splits)
    from Cons.IH[OF r] d True show ?thesis by auto
  next
    case False
    with Cons.prems obtain i' where r: "simulate_idempotency (insert (se_idempotencyKey e) keys) es = (i', dups, keys')"
      and i: "inserted = e # i'"
      by (auto split: prod.splits)
    from Cons.IH[OF r] i False show ?thesis by auto
  qed
qed

lemma simulate_idempotency_new:
  "simulate_idempotency keys es = (inserted, dups, keys') \<Longrightarrow>
     \<forall>e \<in> set inserted. se_idempotencyKey e \<notin> keys"
proof (induction es arbitrary: keys inserted dups keys')
  case Nil
  then show ?case by simp
next
  case (Cons e es)
  show ?case
  proof (cases "se_idempotencyKey e \<in> keys")
    case True
    with Cons.prems obtain d' where r: "simulate_idempotency keys es = (inserted, d', keys')"
      by (auto split: prod.splits)
    from Cons.IH[OF r] show ?thesis .
  next
    case False
    with Cons.prems obtain i' where r: "simulate_idempotency (insert (se_idempotencyKey e) keys) es = (i', dups, keys')"
      and i: "inserted = e # i'"
      by (auto split: prod.splits)
    from Cons.IH[OF r] i False show ?thesis by auto
  qed
qed

text \<open>What the persistence step and the bypass simulation do together.\<close>

lemma persisted_ok_nothing:
  "database env = ImportFailed \<and> \<not> BYPASS_AUTH env \<or> es = [] \<Longrightarrow> persisted_ok env st es [] [] st"
  by (auto simp: persisted_ok_def)

lemma persisted_ok_simulated:
  assumes s: "simulate_idempotency (inMemoryIdempotencyKeys st) es = (ins, dups, k')"
  shows "persisted_ok env st es ins dups
           (st\<lparr> inMemoryIdempotencyKeys := k', inMemoryEvents := inMemoryEvents st @ ins \<rparr>)"
proof -
  from simulate_idempotency_props[OF s] have a: "set ins \<subseteq> set es" "set dups \<subseteq> se_idempotencyKey ` set es"
    "k' = inMemoryIdempotencyKeys st \<union> se_idempotencyKey ` set es" by blast+
  from simulate_idempotency_new[OF s] have n: "\<forall>e \<in> set ins. se_idempotencyKey e \<notin> inMemoryIdempotencyKeys st" .
  show ?thesis unfolding persisted_ok_def using a n by (simp add: known_keys_def) blast
qed

lemma persisted_ok_upserted:
  assumes u: "upsertBatch (db_events st) es = (ins, dups, r')"
  shows "persisted_ok env st es ins dups (st\<lparr> db_events := r' \<rparr>)"
proof -
  from upsertBatch_sets[OF u] have a: "set ins \<subseteq> set es" "set dups \<subseteq> se_idempotencyKey ` set es"
    "r' = db_events st @ ins" by blast+
  from upsertBatch_keys[OF u] have k: "se_idempotencyKey ` set r' = se_idempotencyKey ` set (db_events st) \<union> se_idempotencyKey ` set es" .
  from upsertBatch_new[OF u] have n: "\<forall>e \<in> set ins. se_idempotencyKey e \<notin> se_idempotencyKey ` set (db_events st)" .
  have "se_idempotencyKey ` set es \<subseteq> known_keys (st\<lparr> db_events := r' \<rparr>)"
    using k by (simp add: known_keys_def) blast
  moreover have "set (db_events (st\<lparr> db_events := r' \<rparr>)) \<subseteq> set (db_events st) \<union> set ins"
    using a(3) by simp
  ultimately show ?thesis unfolding persisted_ok_def using a(1,2) n by simp
qed

lemma persist_without_database:
  assumes "persist env st es = Inr (i0, d0, st0)" and "database env = ImportFailed \<or> db_failing st"
  shows "i0 = [] \<and> d0 = [] \<and> st0 = st \<and> (BYPASS_AUTH env \<or> database env = ImportFailed)"
proof (cases "database env")
  case ImportFailed
  with assms(1) show ?thesis by (simp add: persist_def)
next
  case (Imported x)
  with assms(2) have "db_failing st" by simp
  with assms(1) Imported show ?thesis by (simp add: persist_def split: if_splits)
qed

lemma persist_with_database:
  assumes "persist env st es = Inr (i0, d0, st0)" and "\<not> (database env = ImportFailed \<or> db_failing st)"
  shows "\<exists>r'. upsertBatch (db_events st) es = (i0, d0, r') \<and> st0 = st\<lparr> db_events := r' \<rparr>"
proof (cases "database env")
  case ImportFailed
  with assms(2) show ?thesis by simp
next
  case (Imported x)
  obtain a b c where u: "upsertBatch (db_events st) es = (a, b, c)"
    by (cases "upsertBatch (db_events st) es") auto
  from assms Imported u have "Inr (a, b, st\<lparr> db_events := c \<rparr>) = (Inr (i0, d0, st0) :: early_reply + _)"
    by (simp add: persist_def)
  then have "a = i0" "b = d0" "st0 = st\<lparr> db_events := c \<rparr>" by auto
  with u show ?thesis by auto
qed

lemma bypass_simulation_taken:
  assumes "bypass_simulation env es (i0, d0, st0) = (ins, dups, st')"
      and "BYPASS_AUTH env \<and> es \<noteq> [] \<and> i0 = [] \<and> d0 = []"
  shows "\<exists>k'. simulate_idempotency (inMemoryIdempotencyKeys st0) es = (ins, dups, k') \<and>
           st' = st0\<lparr> inMemoryIdempotencyKeys := k', inMemoryEvents := inMemoryEvents st0 @ ins \<rparr>"
  using assms by (auto simp: bypass_simulation_def split: prod.splits)

lemma bypass_simulation_skipped:
  assumes "bypass_simulation env es (i0, d0, st0) = (ins, dups, st')"
      and "\<not> (BYPASS_AUTH env \<and> es \<noteq> [] \<and> i0 = [] \<and> d0 = [])"
  shows "ins = i0 \<and> dups = d0 \<and> st' = st0"
  using assms by (simp add: bypass_simulation_def)

lemma persisted_props:
  assumes p: "persist env st es = Inr p"
      and b: "bypass_simulation env es p = (ins, dups, st')"
  shows "persisted_ok env st es ins dups st'"
proof -
  obtain i0 d0 st0 where p0: "p = (i0, d0, st0)" by (cases p) auto
  note p' = p[unfolded p0] and b' = b[unfolded p0]
  show ?thesis
  proof (cases "BYPASS_AUTH env \<and> es \<noteq> [] \<and> i0 = [] \<and> d0 = []")
    case True
    have "st0 = st"
    proof (cases "database env = ImportFailed \<or> db_failing st")
      case True
      from persist_without_database[OF p' True] show ?thesis by simp
    next
      case False
      from persist_with_database[OF p' False] obtain r' where u: "upsertBatch (db_events st) es = (i0, d0, r')"
        by blast
      from upsertBatch_length[OF u] True have False by simp
      then show ?thesis ..
    qed
    with bypass_simulation_taken[OF b' True]
    obtain k' where s: "simulate_idempotency (inMemoryIdempotencyKeys st) es = (ins, dups, k')"
      and st': "st' = st\<lparr> inMemoryIdempotencyKeys := k', inMemoryEvents := inMemoryEvents st @ ins \<rparr>"
      by blast
    from persisted_ok_simulated[OF s] st' show ?thesis by simp
  next
    case False
    from bypass_simulation_skipped[OF b' False] have same: "ins = i0" "dups = d0" "st' = st0" by simp_all
    show ?thesis
    proof (cases "database env = ImportFailed \<or> db_failing st")
      case True
      from persist_without_database[OF p' True]
      have e: "i0 = []" "d0 = []" "st0 = st" and "BYPASS_AUTH env \<or> database env = ImportFailed" by simp_all
      with False have "database env = ImportFailed \<and> \<not> BYPASS_AUTH env \<or> es = []" by blast
      from persisted_ok_nothing[OF this] same e show ?thesis by simp
    next
      case False
      from persist_with_database[OF p' False] obtain r' where u: "upsertBatch (db_events st) es = (i0, d0, r')"
        and st0: "st0 = st\<lparr> db_events := r' \<rparr>" by blast
      from persisted_ok_upserted[OF u] same st0 show ?thesis by simp
    qed
  qed
qed

text \<open>The steps behind a response of the handler.\<close>

lemma ingest_Inr:
  assumes "ingest gen env clock st request = Inr out"
  obtains auth outs p dups where
    "getTenantId env request = Inr auth"
    "process_events gen env request auth (headerIdempotencyKey (idempotency_key_header request))
       clock 0 (events request) = Inr outs"
    "persist env st (eventsToInsert_of outs) = Inr p"
    "bypass_simulation env (eventsToInsert_of outs) p = (persisted out, dups, state_after out)"
    "results (response out) = error_results_of outs
       @ status_results (se_idempotencyKey ` set (persisted out)) (set dups) (eventsToInsert_of outs)"
    "errors (response out) = (if errors_of outs \<noteq> [] then Some (errors_of outs) else None)"
    "accepted (response out) = length (persisted out)"
    "duplicates (response out) = length dups"
    "submitted out = enqueue_jobs env (persisted out)"
  using assms
  by (auto simp: ingest_def event_loop_def Let_def split: sum.splits prod.splits)

lemma ingest_eval:
  assumes "getTenantId env request = Inr auth"
      and "process_events gen env request auth (headerIdempotencyKey (idempotency_key_header request))
             clock 0 (events request) = Inr outs"
      and "persist env st (eventsToInsert_of outs) = Inr p"
      and "bypass_simulation env (eventsToInsert_of outs) p = (ins, dups, st')"
  shows "ingest gen env clock st request =
           Inr \<lparr> response =
                   \<lparr> accepted = length ins, duplicates = length dups,
                     requestId = request_id request,
                     results = error_results_of outs
                       @ status_results (se_idempotencyKey ` set ins) (set dups) (eventsToInsert_of outs),
                     errors = (if errors_of outs \<noteq> [] then Some (errors_of outs) else None) \<rparr>,
                 state_after = st', persisted = ins, submitted = enqueue_jobs env ins \<rparr>"
  using assms by (simp add: ingest_def event_loop_def Let_def)

subsection \<open>Aggregation jobs\<close>

lemma split_at_colon:
  "CHR '':'' \<notin> set a \<Longrightarrow> CHR '':'' \<notin> set b \<Longrightarrow> a @ CHR '':'' # x = b @ CHR '':'' # y \<Longrightarrow> a = b \<and> x = y"
proof (induction a arbitrary: b)
  case Nil
  then show ?case by (cases b) auto
next
  case (Cons c a)
  then show ?case by (cases b) auto
qed

lemma job_key_inj:
  assumes "CHR '':'' \<notin> set t1" "CHR '':'' \<notin> set m1" "CHR '':'' \<notin> set c1"
      and "CHR '':'' \<notin> set t2" "CHR '':'' \<notin> set m2" "CHR '':'' \<notin> set c2"
      and "job_key t1 m1 c1 p1 = job_key t2 m2 c2 p2"
  shows "t1 = t2 \<and> m1 = m2 \<and> c1 = c2 \<and> p1 = p2"
proof -
  from assms(7) have "t1 @ CHR '':'' # (m1 @ '':'' @ c1 @ '':'' @ p1) = t2 @ CHR '':'' # (m2 @ '':'' @ c2 @ '':'' @ p2)"
    by (simp add: job_key_def)
  from split_at_colon[OF assms(1) assms(4) this]
  have t: "t1 = t2" and r1: "m1 @ CHR '':'' # (c1 @ '':'' @ p1) = m2 @ CHR '':'' # (c2 @ '':'' @ p2)" by simp_all
  from split_at_colon[OF assms(2) assms(5) r1]
  have m: "m1 = m2" and r2: "c1 @ CHR '':'' # p1 = c2 @ CHR '':'' # p2" by simp_all
  from split_at_colon[OF assms(3) assms(6) r2] t m show ?thesis by simp
qed

lemma event_key_inj:
  "colon_free e1 \<Longrightarrow> colon_free e2 \<Longrightarrow> event_key e1 = event_key e2 \<Longrightarrow> event_job e1 = event_job e2"
  using job_key_inj[of "se_tenantId e1" "se_metric e1" "se_customerRef e1"
                       "se_tenantId e2" "se_metric e2" "se_customerRef e2"]
  by (simp add: colon_free_def event_key_def event_job_def)

lemma bulk_job_id: "bj_jobId (bulk_job (event_job e)) = event_key e"
  by (simp add: bulk_job_def event_job_def event_key_def)

lemma collect_jobs_mem:
  "(k, j) \<in> set (collect_jobs m es) \<Longrightarrow>
     (k, j) \<in> set m \<or> (\<exists>e \<in> set es. k = event_key e \<and> j = event_job e)"
  by (induction m es rule: collect_jobs.induct) (auto split: if_splits)

lemma collect_jobs_keys:
  "fst ` set (collect_jobs m es) = fst ` set m \<union> event_key ` set es"
  by (induction m es rule: collect_jobs.induct) (auto split: if_splits)

lemma collect_jobs_distinct:
  "distinct (map fst m) \<Longrightarrow> distinct (map fst (collect_jobs m es))"
  by (induction m es rule: collect_jobs.induct) (auto split: if_splits)

lemma collect_jobs_ids:
  "map (bj_jobId \<circ> bulk_job \<circ> snd) (collect_jobs [] es) = map fst (collect_jobs [] es)"
proof -
  have "bj_jobId (bulk_job j) = k" if "(k, j) \<in> set (collect_jobs [] es)" for k j
  proof -
    from collect_jobs_mem[OF that] obtain e where "k = event_key e" "j = event_job e" by auto
    then show ?thesis by (simp add: bulk_job_id)
  qed
  then show ?thesis by (auto simp: map_eq_conv)
qed

lemma enqueue_jobs_origin:
  assumes "enqueue_jobs env ins = Some jobs" and "b \<in> set jobs"
  shows "\<exists>s \<in> set ins. b = bulk_job (event_job s)"
proof -
  have mem: "(k, j) \<in> set (collect_jobs m es) \<Longrightarrow>
               (k, j) \<in> set m \<or> (\<exists>e \<in> set es. k = event_key e \<and> j = event_job e)" for k j m es
    by (induction m es rule: collect_jobs.induct) (auto split: if_splits)
  from assms have "b \<in> (bulk_job \<circ> snd) ` set (collect_jobs [] ins)"
    by (auto simp: enqueue_jobs_def split: if_splits)
  then obtain k j where "(k, j) \<in> set (collect_jobs [] ins)" "b = bulk_job j" by auto
  with mem[of k j "[]" ins] show ?thesis by auto
qed

text \<open>The jobs handed to \<open>addBulk\<close> for the inserted events \<open>ins\<close>.\<close>

lemma enqueue_jobs_props:
  assumes "enqueue_jobs env ins = Some jobs"
  shows "distinct (map bj_jobId jobs)"
    and "bj_jobId ` set jobs = event_key ` set ins"
    and "distinct (map bj_data jobs)"
    and "(\<forall>e \<in> set ins. colon_free e) \<Longrightarrow> bj_data ` set jobs = event_job ` set ins"
proof -
  from assms have jobs: "jobs = map (bulk_job \<circ> snd) (collect_jobs [] ins)"
    by (auto simp: enqueue_jobs_def split: if_splits)
  have ids: "map bj_jobId jobs = map fst (collect_jobs [] ins)"
    using collect_jobs_ids[of ins] by (simp add: jobs comp_def)
  show d: "distinct (map bj_jobId jobs)"
    using collect_jobs_distinct[of "[]" ins] by (simp add: ids)
  show k: "bj_jobId ` set jobs = event_key ` set ins"
    using collect_jobs_keys[of "[]" ins] ids by (metis empty_set image_empty list.set_map sup_bot_left)
  have id_of_data: "bj_jobId b = job_key (job_tenantId (bj_data b)) (job_metric (bj_data b))
                       (job_customerRef (bj_data b)) (job_periodStart (bj_data b))" if "b \<in> set jobs" for b
    using that by (auto simp: jobs bulk_job_def)
  show "distinct (map bj_data jobs)"
  proof -
    have "inj_on bj_data (set jobs)"
    proof (rule inj_onI)
      fix x y assume x: "x \<in> set jobs" and y: "y \<in> set jobs" and eq: "bj_data x = bj_data y"
      from id_of_data[OF x] id_of_data[OF y] eq have "bj_jobId x = bj_jobId y" by simp
      moreover from d have "inj_on bj_jobId (set jobs)" by (simp add: distinct_map)
      ultimately show "x = y" using x y by (auto dest: inj_onD)
    qed
    moreover from d have "distinct jobs" by (simp add: distinct_map)
    ultimately show ?thesis by (simp add: distinct_map)
  qed
  assume cf: "\<forall>e \<in> set ins. colon_free e"
  show "bj_data ` set jobs = event_job ` set ins"
  proof (intro equalityI subsetI)
    fix d assume "d \<in> bj_data ` set jobs"
    then obtain k j where "(k, j) \<in> set (collect_jobs [] ins)" "d = bj_data (bulk_job j)"
      by (auto simp: jobs)
    with collect_jobs_mem[of k j "[]" ins] show "d \<in> event_job ` set ins"
      by (auto simp: bulk_job_def)
  next
    fix d assume "d \<in> event_job ` set ins"
    then obtain e where e: "e \<in> set ins" "d = event_job e" by auto
    then have "event_key e \<in> fst ` set (collect_jobs [] ins)" by (simp add: collect_jobs_keys)
    then obtain j where kj: "(event_key e, j) \<in> set (collect_jobs [] ins)" by force
    with collect_jobs_mem[of "event_key e" j "[]" ins] obtain e' where
      e': "e' \<in> set ins" "event_key e = event_key e'" "j = event_job e'" by auto
    from event_key_inj[of e e'] cf e(1) e'(1,2) have "event_job e = event_job e'" by simp
    with kj e'(3) e(2) have "(event_key e, d) \<in> set (collect_jobs [] ins)" by simp
    then have "bulk_job d \<in> set jobs" by (force simp: jobs)
    then show "d \<in> bj_data ` set jobs" by (force simp: bulk_job_def)
  qed
qed

text \<open>
  The key string does not tell every two buckets apart: metric \<open>a:b\<close> of customer \<open>c\<close>
  and metric \<open>a\<close> of customer \<open>b:c\<close> have the same key, hence share one job.
\<close>

lemma colon_collision:
  "event_key (e\<lparr> se_metric := ''a:b'', se_customerRef := ''c'' \<rparr>)
     = event_key (e\<lparr> se_metric := ''a'', se_customerRef := ''b:c'' \<rparr>) \<and>
   event_job (e\<lparr> se_metric := ''a:b'', se_customerRef := ''c'' \<rparr>)
     \<noteq> event_job (e\<lparr> se_metric := ''a'', se_customerRef := ''b:c'' \<rparr>)"
  by (simp add: event_key_def job_key_def event_job_def)

subsection \<open>The scenarios, evaluated\<close>

lemma getTime_mid_january: "getTime mid_january = 1736937000000"
  by (simp add: getTime_def mid_january_def days_from_civil_def Let_def)

lemma iso_january: "toISOString (period_start mid_january) = ''2025-01-01T00:00:00.000Z''"
  by (simp add: toISOString_def period_start_def mid_january_def pad2_def pad3_def pad4_def digit_char_def)

lemma getTime_new_year_day: "getTime new_year_day = 1735689600000"
  by (simp add: getTime_def new_year_day_def days_from_civil_def Let_def)

lemma iso_mid_january: "toISOString mid_january = ''2025-01-15T10:30:00.000Z''"
  by (simp add: toISOString_def mid_january_def pad2_def pad3_def pad4_def digit_char_def)

lemma iso_new_year_day: "toISOString new_year_day = ''2025-01-01T00:00:00.000Z''"
  by (simp add: toISOString_def new_year_day_def pad2_def pad3_def pad4_def digit_char_def)

lemma period_start_new_year_day: "period_start new_year_day = period_start mid_january"
  by (simp add: period_start_def new_year_day_def mid_january_def)

lemma sample_event_key:
  "period_start w = period_start mid_january \<Longrightarrow>
   event_key (stored_sample t c w k) = t @ '':requests:'' @ c @ '':2025-01-01T00:00:00.000Z''"
  by (simp add: event_key_def job_key_def stored_sample_def iso_january)

lemma sample_bulk_job:
  "period_start w = period_start mid_january \<Longrightarrow>
   bulk_job (event_job (stored_sample t c w k)) = january_job t c"
  by (simp add: bulk_job_def event_job_def job_key_def stored_sample_def iso_january january_job_def)

lemma usage_event_tenant: "ev_tenantId (usage_event t c w) = t"
  by (simp add: usage_event_def)

lemma sample_process_event:
  "process_event sample_generator env auth None now i (usage_event t c w) =
     (if getTime w > now + 3600000
      then Rejected \<lparr> err_index = i, err_error = ''Event timestamp too far in the future'' \<rparr>
             \<lparr> res_idempotencyKey = ''evt_'' @ (if BYPASS_AUTH env then t else auth) @ ''_requests_'' @ c
                                      @ ''_'' @ toISOString w,
               res_status = Error, res_error = Some ''Event timestamp too far in the future'' \<rparr>
      else ToInsert (stored_sample (if BYPASS_AUTH env then t else auth) c w
                       (''evt_'' @ (if BYPASS_AUTH env then t else auth) @ ''_requests_'' @ c
                          @ ''_'' @ toISOString w)))"
  by (simp add: process_event_def Let_def force_tenant_def resolve_key_def usage_event_def
        sample_generator_def stored_event_def stored_sample_def)

lemma production_tenant:
  "org \<noteq> [] \<Longrightarrow> getTenantId production_env (request_of org evs) = Inr org"
  by (simp add: getTenantId_def production_env_def testBypass_def request_of_def)

lemma production_check:
  "org \<noteq> [] \<Longrightarrow> requireTenantMatch production_env (request_of org evs) (Some org) = None"
  by (simp add: requireTenantMatch_def production_env_def testBypass_def request_of_def)

lemma bypass_tenant:
  "getTenantId bypass_env request = Inr ''00000000-0000-0000-0000-000000000000''"
  by (simp add: getTenantId_def bypass_env_def)

lemma bypass_check: "requireTenantMatch bypass_env request t = None"
  by (simp add: requireTenantMatch_def bypass_env_def)

lemma no_queue_tenant:
  "getTenantId no_queue_env request = Inr ''00000000-0000-0000-0000-000000000000''"
  by (simp add: getTenantId_def no_queue_env_def)

lemma no_queue_check: "requireTenantMatch no_queue_env request t = None"
  by (simp add: requireTenantMatch_def no_queue_env_def)

lemma request_of_simps:
  "events (request_of org evs) = evs"
  "headerIdempotencyKey (idempotency_key_header (request_of org evs)) = None"
  "request_id (request_of org evs) = ''req-1''"
  by (simp_all add: request_of_def headerIdempotencyKey_def)

lemma stored_sample_key: "se_idempotencyKey (stored_sample t c w k) = k"
  by (simp add: stored_sample_def)

lemma production_flags:
  "\<not> BYPASS_AUTH production_env" "\<not> testBypass production_env"
  "database production_env = Imported True" "aggregationQueue production_env = Some RedisQueue"
  by (simp_all add: production_env_def testBypass_def aggregationQueue_def)

lemma bypass_flags:
  "BYPASS_AUTH bypass_env" "database bypass_env = ImportFailed"
  "aggregationQueue bypass_env = Some StubQueue"
  by (simp_all add: bypass_env_def aggregationQueue_def)

lemma no_queue_flags:
  "BYPASS_AUTH no_queue_env" "database no_queue_env = ImportFailed"
  "aggregationQueue no_queue_env = None"
  by (simp_all add: no_queue_env_def aggregationQueue_def)

lemma empty_state_simps:
  "db_events empty_state = []" "\<not> db_failing empty_state"
  "inMemoryIdempotencyKeys empty_state = {}" "inMemoryEvents empty_state = []"
  by (simp_all add: empty_state_def)


text \<open>One event of the authenticated tenant.\<close>

lemma enforced_single:
  "ingest sample_generator production_env clock_at_event empty_state
       (request_of ''org'' [usage_event ''org'' ''c1'' mid_january])
    = Inr \<lparr> response =
              \<lparr> accepted = 1, duplicates = 0, requestId = ''req-1'',
                results = [result_of ''evt_org_requests_c1_2025-01-15T10:30:00.000Z'' Accepted],
                errors = None \<rparr>,
            state_after = empty_state
              \<lparr> db_events := [stored_sample ''org'' ''c1'' mid_january
                                 ''evt_org_requests_c1_2025-01-15T10:30:00.000Z''] \<rparr>,
            persisted = [stored_sample ''org'' ''c1'' mid_january
                           ''evt_org_requests_c1_2025-01-15T10:30:00.000Z''],
            submitted = Some [january_job ''org'' ''c1''] \<rparr>"
proof -
  let ?k = "''evt_org_requests_c1_2025-01-15T10:30:00.000Z''"
  let ?s = "stored_sample ''org'' ''c1'' mid_january ?k"
  let ?req = "request_of ''org'' [usage_event ''org'' ''c1'' mid_january]"
  have auth: "getTenantId production_env ?req = Inr ''org''" by (simp add: production_tenant)
  have loop: "process_events sample_generator production_env ?req ''org''
                (headerIdempotencyKey (idempotency_key_header ?req)) clock_at_event 0 (events ?req)
              = Inr [ToInsert ?s]"
    by (simp add: request_of_simps usage_event_tenant production_check sample_process_event
          production_flags getTime_mid_january iso_mid_january clock_at_event_def)
  have pers: "persist production_env empty_state (eventsToInsert_of [ToInsert ?s])
                = Inr ([?s], [], empty_state\<lparr> db_events := [?s] \<rparr>)"
    by (simp add: persist_def production_flags empty_state_simps)
  have sim: "bypass_simulation production_env (eventsToInsert_of [ToInsert ?s])
               ([?s], [], empty_state\<lparr> db_events := [?s] \<rparr>)
      = ([?s], [], empty_state\<lparr> db_events := [?s] \<rparr>)"
    by (simp add: bypass_simulation_def)
  have res: "status_results (se_idempotencyKey ` set [?s]) (set []) (eventsToInsert_of [ToInsert ?s])
      = [result_of ?k Accepted]"
    by (simp add: stored_sample_key Let_def result_of_def)
  have jobs: "enqueue_jobs production_env [?s] = Some [january_job ''org'' ''c1'']"
    by (simp add: enqueue_jobs_def production_flags sample_event_key sample_bulk_job)
  show ?thesis
    by (simp only: ingest_eval[OF auth loop pers sim] res jobs) (simp add: request_of_simps)
qed

text \<open>One event in the bypass mode, with or without a queue.\<close>

lemma bypass_single:
  assumes env: "BYPASS_AUTH env" "database env = ImportFailed"
  shows "ingest sample_generator env clock_at_event empty_state
       (request_of ''org'' [usage_event t ''c1'' mid_january])
    = Inr \<lparr> response =
              \<lparr> accepted = 1, duplicates = 0, requestId = ''req-1'',
                results = [result_of (''evt_'' @ t @ ''_requests_c1_2025-01-15T10:30:00.000Z'') Accepted],
                errors = None \<rparr>,
            state_after = empty_state
              \<lparr> inMemoryIdempotencyKeys := {''evt_'' @ t @ ''_requests_c1_2025-01-15T10:30:00.000Z''},
                inMemoryEvents := [stored_sample t ''c1'' mid_january
                                 (''evt_'' @ t @ ''_requests_c1_2025-01-15T10:30:00.000Z'')] \<rparr>,
            persisted = [stored_sample t ''c1'' mid_january
                           (''evt_'' @ t @ ''_requests_c1_2025-01-15T10:30:00.000Z'')],
            submitted = (if aggregationQueue env \<noteq> None then Some [january_job t ''c1''] else None) \<rparr>"
proof -
  let ?k = "''evt_'' @ t @ ''_requests_c1_2025-01-15T10:30:00.000Z''"
  let ?s = "stored_sample t ''c1'' mid_january ?k"
  let ?req = "request_of ''org'' [usage_event t ''c1'' mid_january]"
  let ?st = "empty_state\<lparr> inMemoryIdempotencyKeys := {?k}, inMemoryEvents := [?s] \<rparr>"
  have auth: "getTenantId env ?req = Inr ''00000000-0000-0000-0000-000000000000''"
    using env by (simp add: getTenantId_def)
  have loop: "process_events sample_generator env ?req ''00000000-0000-0000-0000-000000000000''
                (headerIdempotencyKey (idempotency_key_header ?req)) clock_at_event 0 (events ?req)
              = Inr [ToInsert ?s]"
    using env by (simp add: request_of_simps requireTenantMatch_def sample_process_event
          getTime_mid_january iso_mid_january clock_at_event_def)
  have pers: "persist env empty_state (eventsToInsert_of [ToInsert ?s]) = Inr ([], [], empty_state)"
    using env by (simp add: persist_def)
  have sim: "bypass_simulation env (eventsToInsert_of [ToInsert ?s]) ([], [], empty_state) = ([?s], [], ?st)"
    using env by (simp add: bypass_simulation_def stored_sample_key empty_state_simps)
  have res: "status_results (se_idempotencyKey ` set [?s]) (set []) (eventsToInsert_of [ToInsert ?s])
      = [result_of ?k Accepted]"
    by (simp add: stored_sample_key Let_def result_of_def)
  have jobs: "enqueue_jobs env [?s] = (if aggregationQueue env \<noteq> None then Some [january_job t ''c1''] else None)"
    by (simp add: enqueue_jobs_def sample_event_key sample_bulk_job)
  show ?thesis
    by (simp only: ingest_eval[OF auth loop pers sim] res jobs) (simp add: request_of_simps)
qed

text \<open>The event of \<open>bypass_single\<close>, submitted again in a second request.\<close>

lemma resubmitted_in_bypass:
  assumes env: "BYPASS_AUTH env" "database env = ImportFailed"
  shows "ingest sample_generator env clock_at_event
       (empty_state
              \<lparr> inMemoryIdempotencyKeys := {''evt_'' @ t @ ''_requests_c1_2025-01-15T10:30:00.000Z''},
                inMemoryEvents := [stored_sample t ''c1'' mid_january
                                 (''evt_'' @ t @ ''_requests_c1_2025-01-15T10:30:00.000Z'')] \<rparr>)
       (request_of ''org'' [usage_event t ''c1'' mid_january])
    = Inr \<lparr> response =
              \<lparr> accepted = 0, duplicates = 1, requestId = ''req-1'',
                results = [result_of (''evt_'' @ t @ ''_requests_c1_2025-01-15T10:30:00.000Z'') Duplicate],
                errors = None \<rparr>,
            state_after = empty_state
              \<lparr> inMemoryIdempotencyKeys := {''evt_'' @ t @ ''_requests_c1_2025-01-15T10:30:00.000Z''},
                inMemoryEvents := [stored_sample t ''c1'' mid_january
                                 (''evt_'' @ t @ ''_requests_c1_2025-01-15T10:30:00.000Z'')] \<rparr>,
            persisted = [],
            submitted = None \<rparr>"
proof -
  let ?k = "''evt_'' @ t @ ''_requests_c1_2025-01-15T10:30:00.000Z''"
  let ?s = "stored_sample t ''c1'' mid_january ?k"
  let ?req = "request_of ''org'' [usage_event t ''c1'' mid_january]"
  let ?st = "empty_state\<lparr> inMemoryIdempotencyKeys := {?k}, inMemoryEvents := [?s] \<rparr>"
  have auth: "getTenantId env ?req = Inr ''00000000-0000-0000-0000-000000000000''"
    using env by (simp add: getTenantId_def)
  have loop: "process_events sample_generator env ?req ''00000000-0000-0000-0000-000000000000''
                (headerIdempotencyKey (idempotency_key_header ?req)) clock_at_event 0 (events ?req)
              = Inr [ToInsert ?s]"
    using env by (simp add: request_of_simps requireTenantMatch_def sample_process_event
          getTime_mid_january iso_mid_january clock_at_event_def)
  have pers: "persist env ?st (eventsToInsert_of [ToInsert ?s]) = Inr ([], [], ?st)"
    using env by (simp add: persist_def)
  have sim: "bypass_simulation env (eventsToInsert_of [ToInsert ?s]) ([], [], ?st) = ([], [?k], ?st)"
    using env by (simp add: bypass_simulation_def stored_sample_key empty_state_simps)
  have res: "status_results (se_idempotencyKey ` set []) (set [?k]) (eventsToInsert_of [ToInsert ?s])
      = [result_of ?k Duplicate]"
    by (simp add: stored_sample_key Let_def result_of_def)
  have jobs: "enqueue_jobs env [] = None"
    by (simp add: enqueue_jobs_def)
  show ?thesis
    by (simp only: ingest_eval[OF auth loop pers sim] res jobs) (simp add: request_of_simps)
qed

text \<open>The same event twice in one batch, on the database.\<close>

lemma twice_in_database:
  "ingest sample_generator production_env clock_at_event empty_state
       (request_of ''org'' [usage_event ''org'' ''c1'' mid_january, usage_event ''org'' ''c1'' mid_january])
    = Inr \<lparr> response =
              \<lparr> accepted = 1, duplicates = 1, requestId = ''req-1'',
                results = [result_of ''evt_org_requests_c1_2025-01-15T10:30:00.000Z'' Accepted,
                           result_of ''evt_org_requests_c1_2025-01-15T10:30:00.000Z'' Accepted],
                errors = None \<rparr>,
            state_after = empty_state
              \<lparr> db_events := [stored_sample ''org'' ''c1'' mid_january
                                 ''evt_org_requests_c1_2025-01-15T10:30:00.000Z''] \<rparr>,
            persisted = [stored_sample ''org'' ''c1'' mid_january
                           ''evt_org_requests_c1_2025-01-15T10:30:00.000Z''],
            submitted = Some [january_job ''org'' ''c1''] \<rparr>"
proof -
  let ?k = "''evt_org_requests_c1_2025-01-15T10:30:00.000Z''"
  let ?s = "stored_sample ''org'' ''c1'' mid_january ?k"
  let ?req = "request_of ''org'' [usage_event ''org'' ''c1'' mid_january, usage_event ''org'' ''c1'' mid_january]"
  have auth: "getTenantId production_env ?req = Inr ''org''" by (simp add: production_tenant)
  have loop: "process_events sample_generator production_env ?req ''org''
                (headerIdempotencyKey (idempotency_key_header ?req)) clock_at_event 0 (events ?req)
              = Inr [ToInsert ?s, ToInsert ?s]"
    by (simp add: request_of_simps usage_event_tenant production_check sample_process_event
          production_flags getTime_mid_january iso_mid_january clock_at_event_def)
  have pers: "persist production_env empty_state (eventsToInsert_of [ToInsert ?s, ToInsert ?s])
                = Inr ([?s], [?k], empty_state\<lparr> db_events := [?s] \<rparr>)"
    by (simp add: persist_def production_flags empty_state_simps stored_sample_key)
  have sim: "bypass_simulation production_env (eventsToInsert_of [ToInsert ?s, ToInsert ?s])
               ([?s], [?k], empty_state\<lparr> db_events := [?s] \<rparr>)
      = ([?s], [?k], empty_state\<lparr> db_events := [?s] \<rparr>)"
    by (simp add: bypass_simulation_def)
  have res: "status_results (se_idempotencyKey ` set [?s]) (set [?k]) (eventsToInsert_of [ToInsert ?s, ToInsert ?s])
      = [result_of ?k Accepted, result_of ?k Accepted]"
    by (simp add: stored_sample_key Let_def result_of_def)
  have jobs: "enqueue_jobs production_env [?s] = Some [january_job ''org'' ''c1'']"
    by (simp add: enqueue_jobs_def production_flags sample_event_key sample_bulk_job)
  show ?thesis
    by (simp only: ingest_eval[OF auth loop pers sim] res jobs) (simp add: request_of_simps)
qed

text \<open>Three events of two buckets, with authentication enforced.\<close>

lemma three_events:
  "ingest sample_generator production_env clock_at_event empty_state
       (request_of ''org'' [usage_event ''org'' ''c1'' mid_january, usage_event ''org'' ''c1'' new_year_day,
                            usage_event ''org'' ''c2'' mid_january])
    = Inr \<lparr> response =
              \<lparr> accepted = 3, duplicates = 0, requestId = ''req-1'',
                results = [result_of ''evt_org_requests_c1_2025-01-15T10:30:00.000Z'' Accepted,
                           result_of ''evt_org_requests_c1_2025-01-01T00:00:00.000Z'' Accepted,
                           result_of ''evt_org_requests_c2_2025-01-15T10:30:00.000Z'' Accepted],
                errors = None \<rparr>,
            state_after = empty_state
              \<lparr> db_events :=
                  [stored_sample ''org'' ''c1'' mid_january ''evt_org_requests_c1_2025-01-15T10:30:00.000Z'',
                   stored_sample ''org'' ''c1'' new_year_day ''evt_org_requests_c1_2025-01-01T00:00:00.000Z'',
                   stored_sample ''org'' ''c2'' mid_january ''evt_org_requests_c2_2025-01-15T10:30:00.000Z''] \<rparr>,
            persisted =
              [stored_sample ''org'' ''c1'' mid_january ''evt_org_requests_c1_2025-01-15T10:30:00.000Z'',
               stored_sample ''org'' ''c1'' new_year_day ''evt_org_requests_c1_2025-01-01T00:00:00.000Z'',
               stored_sample ''org'' ''c2'' mid_january ''evt_org_requests_c2_2025-01-15T10:30:00.000Z''],
            submitted = Some [january_job ''org'' ''c1'', january_job ''org'' ''c2''] \<rparr>"
proof -
  let ?k1 = "''evt_org_requests_c1_2025-01-15T10:30:00.000Z''"
  let ?k2 = "''evt_org_requests_c1_2025-01-01T00:00:00.000Z''"
  let ?k3 = "''evt_org_requests_c2_2025-01-15T10:30:00.000Z''"
  let ?s1 = "stored_sample ''org'' ''c1'' mid_january ?k1"
  let ?s2 = "stored_sample ''org'' ''c1'' new_year_day ?k2"
  let ?s3 = "stored_sample ''org'' ''c2'' mid_january ?k3"
  let ?req = "request_of ''org'' [usage_event ''org'' ''c1'' mid_january, usage_event ''org'' ''c1'' new_year_day,
                            usage_event ''org'' ''c2'' mid_january]"
  have auth: "getTenantId production_env ?req = Inr ''org''" by (simp add: production_tenant)
  have loop: "process_events sample_generator production_env ?req ''org''
                (headerIdempotencyKey (idempotency_key_header ?req)) clock_at_event 0 (events ?req)
              = Inr [ToInsert ?s1, ToInsert ?s2, ToInsert ?s3]"
    by (simp add: request_of_simps usage_event_tenant production_check sample_process_event
          production_flags getTime_mid_january getTime_new_year_day iso_mid_january iso_new_year_day
          clock_at_event_def)
  have pers: "persist production_env empty_state (eventsToInsert_of [ToInsert ?s1, ToInsert ?s2, ToInsert ?s3])
                = Inr ([?s1, ?s2, ?s3], [], empty_state\<lparr> db_events := [?s1, ?s2, ?s3] \<rparr>)"
    by (simp add: persist_def production_flags empty_state_simps stored_sample_key)
  have sim: "bypass_simulation production_env (eventsToInsert_of [ToInsert ?s1, ToInsert ?s2, ToInsert ?s3])
               ([?s1, ?s2, ?s3], [], empty_state\<lparr> db_events := [?s1, ?s2, ?s3] \<rparr>)
      = ([?s1, ?s2, ?s3], [], empty_state\<lparr> db_events := [?s1, ?s2, ?s3] \<rparr>)"
    by (simp add: bypass_simulation_def)
  have res: "status_results (se_idempotencyKey ` set [?s1, ?s2, ?s3]) (set [])
               (eventsToInsert_of [ToInsert ?s1, ToInsert ?s2, ToInsert ?s3])
      = [result_of ?k1 Accepted, result_of ?k2 Accepted, result_of ?k3 Accepted]"
    by (simp add: stored_sample_key Let_def result_of_def)
  have jobs: "enqueue_jobs production_env [?s1, ?s2, ?s3]
                = Some [january_job ''org'' ''c1'', january_job ''org'' ''c2'']"
    by (simp add: enqueue_jobs_def production_flags sample_event_key sample_bulk_job
          period_start_new_year_day)
  show ?thesis
    by (simp only: ingest_eval[OF auth loop pers sim] res jobs) (simp add: request_of_simps)
qed



subsection \<open>Deduplication within and across requests\<close>

text \<open>
  C1, where the code departs from it. A batch that holds the same event twice, sent to a
  server in the bypass mode with an empty in-memory store: one event is inserted and one
  key is counted in \<open>duplicates\<close>, no error is reported, but both entries of \<open>results\<close>
  have status \<open>accepted\<close>, since the status is looked up by key and the inserted keys are
  looked at first.
\<close>

theorem C1_same_batch_duplicate_reported_accepted:
  "ingest sample_generator bypass_env clock_at_event empty_state
       (request_of ''org'' [usage_event ''t1'' ''c1'' mid_january, usage_event ''t1'' ''c1'' mid_january])
    = Inr \<lparr> response =
              \<lparr> accepted = 1, duplicates = 1, requestId = ''req-1'',
                results = [result_of ''evt_t1_requests_c1_2025-01-15T10:30:00.000Z'' Accepted,
                           result_of ''evt_t1_requests_c1_2025-01-15T10:30:00.000Z'' Accepted],
                errors = None \<rparr>,
            state_after =
              \<lparr> db_events = [], db_failing = False,
                inMemoryIdempotencyKeys = {''evt_t1_requests_c1_2025-01-15T10:30:00.000Z''},
                inMemoryEvents = [stored_sample ''t1'' ''c1'' mid_january
                                    ''evt_t1_requests_c1_2025-01-15T10:30:00.000Z''] \<rparr>,
            persisted = [stored_sample ''t1'' ''c1'' mid_january
                           ''evt_t1_requests_c1_2025-01-15T10:30:00.000Z''],
            submitted = Some [january_job ''t1'' ''c1''] \<rparr>"
proof -
  let ?k = "''evt_t1_requests_c1_2025-01-15T10:30:00.000Z''"
  let ?s = "stored_sample ''t1'' ''c1'' mid_january ?k"
  let ?req = "request_of ''org'' [usage_event ''t1'' ''c1'' mid_january, usage_event ''t1'' ''c1'' mid_january]"
  have k: "se_idempotencyKey ?s = ?k" by (simp add: stored_sample_def)
  have auth: "getTenantId bypass_env ?req = Inr ''00000000-0000-0000-0000-000000000000''"
    by (simp add: getTenantId_def bypass_env_def)
  have loop: "process_events sample_generator bypass_env ?req ''00000000-0000-0000-0000-000000000000''
                (headerIdempotencyKey (idempotency_key_header ?req)) clock_at_event 0 (events ?req)
              = Inr [ToInsert ?s, ToInsert ?s]"
    by (simp add: request_of_def headerIdempotencyKey_def requireTenantMatch_def sample_process_event
          getTime_mid_january iso_mid_january clock_at_event_def) (simp add: bypass_env_def)
  have pers: "persist bypass_env empty_state (eventsToInsert_of [ToInsert ?s, ToInsert ?s]) = Inr ([], [], empty_state)"
    by (simp add: persist_def bypass_env_def)
  have sim: "bypass_simulation bypass_env (eventsToInsert_of [ToInsert ?s, ToInsert ?s]) ([], [], empty_state)
      = ([?s], [?k], \<lparr> db_events = [], db_failing = False, inMemoryIdempotencyKeys = {?k}, inMemoryEvents = [?s] \<rparr>)"
    by (simp add: bypass_simulation_def k) (simp add: bypass_env_def empty_state_def)
  have res: "status_results (se_idempotencyKey ` set [?s]) (set [?k]) (eventsToInsert_of [ToInsert ?s, ToInsert ?s])
      = [result_of ?k Accepted, result_of ?k Accepted]"
    by (simp add: k Let_def result_of_def)
  have jobs: "enqueue_jobs bypass_env [?s] = Some [january_job ''t1'' ''c1'']"
    by (simp add: enqueue_jobs_def aggregationQueue_def sample_bulk_job) (simp add: bypass_env_def)
  show ?thesis
    by (simp only: ingest_eval[OF auth loop pers sim] res jobs)
       (simp add: request_of_def)
qed

subsection \<open>Key precedence\<close>



subsection \<open>Timestamps in the future\<close>



subsection \<open>Aggregation jobs of a batch\<close>

text \<open>
  C7, as the code has it. Without a configured queue, or with nothing inserted, no job
  is submitted. Otherwise one job is submitted per distinct key string
  \<open>tenantId:metric:customerRef:periodStart\<close> of the inserted events: the job ids are
  distinct and are exactly those keys, no two jobs have the same data, each job has
  delay 1000 and the data of an inserted event with \<open>periodStart\<close> the ISO string of the
  first of its month at 00:00:00.000 UTC, and each id is the key string of its data.
  When no tenant, metric or customerRef of these events contains \<open>:\<close>, the jobs' data are
  exactly the distinct (tenantId, metric, customerRef, periodStart) of the inserted
  events. Inserted events are events of the batch that were not rejected, and are new to
  the store they were inserted in.
\<close>

theorem C7_one_job_per_bucket_when_queue:
  assumes "ingest gen env clock st request = Inr out"
  shows "(aggregationQueue env = None \<or> persisted out = [] \<longrightarrow> submitted out = None) \<and>
         (aggregationQueue env \<noteq> None \<and> persisted out \<noteq> [] \<longrightarrow>
            (\<exists>jobs. submitted out = Some jobs \<and>
               distinct (map bj_jobId jobs) \<and>
               bj_jobId ` set jobs = event_key ` set (persisted out) \<and>
               distinct (map bj_data jobs) \<and>
               (\<forall>b \<in> set jobs.
                  bj_name b = ''aggregate-counter'' \<and> bj_delay b = 1000 \<and>
                  bj_jobId b = job_tenantId (bj_data b) @ '':'' @ job_metric (bj_data b) @ '':''
                                 @ job_customerRef (bj_data b) @ '':'' @ job_periodStart (bj_data b) \<and>
                  (\<exists>e \<in> set (persisted out).
                     bj_data b = \<lparr> job_tenantId = se_tenantId e, job_metric = se_metric e,
                                   job_customerRef = se_customerRef e,
                                   job_periodStart = toISOString
                                     ((se_ts e)\<lparr> utc_day := 1, utc_hours := 0, utc_minutes := 0,
                                                 utc_seconds := 0, utc_millis := 0 \<rparr>) \<rparr>)) \<and>
               ((\<forall>e \<in> set (persisted out). colon_free e) \<longrightarrow>
                  bj_data ` set jobs = event_job ` set (persisted out)))) \<and>
         (\<exists>auth. \<forall>e \<in> set (persisted out). \<exists>j < length (events request).
             \<not> too_far_ahead clock request j \<and> e = stored_at gen env auth request j) \<and>
         ((\<forall>e \<in> set (persisted out). se_idempotencyKey e \<notin> se_idempotencyKey ` set (db_events st)) \<or>
          (\<forall>e \<in> set (persisted out). se_idempotencyKey e \<notin> inMemoryIdempotencyKeys st))"
proof -
  from assms obtain auth outs p dups where
    loop: "process_events gen env request auth (headerIdempotencyKey (idempotency_key_header request))
       clock 0 (events request) = Inr outs"
    and p: "persist env st (eventsToInsert_of outs) = Inr p"
    and b: "bypass_simulation env (eventsToInsert_of outs) p = (persisted out, dups, state_after out)"
    and sub: "submitted out = enqueue_jobs env (persisted out)"
    by (rule ingest_Inr)
  from persisted_props[OF p b]
  have ok: "persisted_ok env st (eventsToInsert_of outs) (persisted out) dups (state_after out)" .
  have none: "aggregationQueue env = None \<or> persisted out = [] \<longrightarrow> submitted out = None"
    using sub by (auto simp: enqueue_jobs_def)
  have some: "\<exists>jobs. submitted out = Some jobs \<and>
               distinct (map bj_jobId jobs) \<and>
               bj_jobId ` set jobs = event_key ` set (persisted out) \<and>
               distinct (map bj_data jobs) \<and>
               (\<forall>b \<in> set jobs.
                  bj_name b = ''aggregate-counter'' \<and> bj_delay b = 1000 \<and>
                  bj_jobId b = job_tenantId (bj_data b) @ '':'' @ job_metric (bj_data b) @ '':''
                                 @ job_customerRef (bj_data b) @ '':'' @ job_periodStart (bj_data b) \<and>
                  (\<exists>e \<in> set (persisted out).
                     bj_data b = \<lparr> job_tenantId = se_tenantId e, job_metric = se_metric e,
                                   job_customerRef = se_customerRef e,
                                   job_periodStart = toISOString
                                     ((se_ts e)\<lparr> utc_day := 1, utc_hours := 0, utc_minutes := 0,
                                                 utc_seconds := 0, utc_millis := 0 \<rparr>) \<rparr>)) \<and>
               ((\<forall>e \<in> set (persisted out). colon_free e) \<longrightarrow>
                  bj_data ` set jobs = event_job ` set (persisted out))"
    if q: "aggregationQueue env \<noteq> None \<and> persisted out \<noteq> []"
  proof -
    from q sub obtain jobs where j: "enqueue_jobs env (persisted out) = Some jobs" "submitted out = Some jobs"
      by (auto simp: enqueue_jobs_def)
    have each: "\<forall>b \<in> set jobs.
                  bj_name b = ''aggregate-counter'' \<and> bj_delay b = 1000 \<and>
                  bj_jobId b = job_tenantId (bj_data b) @ '':'' @ job_metric (bj_data b) @ '':''
                                 @ job_customerRef (bj_data b) @ '':'' @ job_periodStart (bj_data b) \<and>
                  (\<exists>e \<in> set (persisted out).
                     bj_data b = \<lparr> job_tenantId = se_tenantId e, job_metric = se_metric e,
                                   job_customerRef = se_customerRef e,
                                   job_periodStart = toISOString
                                     ((se_ts e)\<lparr> utc_day := 1, utc_hours := 0, utc_minutes := 0,
                                                 utc_seconds := 0, utc_millis := 0 \<rparr>) \<rparr>)"
    proof
      fix b assume "b \<in> set jobs"
      from enqueue_jobs_origin[OF j(1) this] obtain e where
        e: "e \<in> set (persisted out)" "b = bulk_job (event_job e)" by blast
      have "bj_data b = \<lparr> job_tenantId = se_tenantId e, job_metric = se_metric e,
                                   job_customerRef = se_customerRef e,
                                   job_periodStart = toISOString
                                     ((se_ts e)\<lparr> utc_day := 1, utc_hours := 0, utc_minutes := 0,
                                                 utc_seconds := 0, utc_millis := 0 \<rparr>) \<rparr>"
        by (simp add: e(2) bulk_job_def event_job_def period_start_def)
      with e(1) show "bj_name b = ''aggregate-counter'' \<and> bj_delay b = 1000 \<and>
                  bj_jobId b = job_tenantId (bj_data b) @ '':'' @ job_metric (bj_data b) @ '':''
                                 @ job_customerRef (bj_data b) @ '':'' @ job_periodStart (bj_data b) \<and>
                  (\<exists>e \<in> set (persisted out).
                     bj_data b = \<lparr> job_tenantId = se_tenantId e, job_metric = se_metric e,
                                   job_customerRef = se_customerRef e,
                                   job_periodStart = toISOString
                                     ((se_ts e)\<lparr> utc_day := 1, utc_hours := 0, utc_minutes := 0,
                                                 utc_seconds := 0, utc_millis := 0 \<rparr>) \<rparr>)"
        by (auto simp: e(2) bulk_job_def job_key_def)
    qed
    note props = enqueue_jobs_props[OF j(1)]
    have cf: "(\<forall>e \<in> set (persisted out). colon_free e) \<longrightarrow>
                  bj_data ` set jobs = event_job ` set (persisted out)"
      using props(4) by (rule impI)
    show ?thesis
      by (rule exI[of _ jobs]) (intro conjI j(2) props(1) props(2) props(3) each cf)
  qed
  have origin: "\<forall>e \<in> set (persisted out). \<exists>j < length (events request).
             \<not> too_far_ahead clock request j \<and> e = stored_at gen env auth request j"
  proof
    fix e assume "e \<in> set (persisted out)"
    with ok have "e \<in> set (eventsToInsert_of outs)" by (auto simp: persisted_ok_def)
    from to_insert_origin[OF loop this]
    show "\<exists>j < length (events request). \<not> too_far_ahead clock request j \<and> e = stored_at gen env auth request j" .
  qed
  from ok have new: "(\<forall>e \<in> set (persisted out). se_idempotencyKey e \<notin> se_idempotencyKey ` set (db_events st)) \<or>
          (\<forall>e \<in> set (persisted out). se_idempotencyKey e \<notin> inMemoryIdempotencyKeys st)"
    by (simp add: persisted_ok_def)
  from some have some': "aggregationQueue env \<noteq> None \<and> persisted out \<noteq> [] \<longrightarrow>
            (\<exists>jobs. submitted out = Some jobs \<and>
               distinct (map bj_jobId jobs) \<and>
               bj_jobId ` set jobs = event_key ` set (persisted out) \<and>
               distinct (map bj_data jobs) \<and>
               (\<forall>b \<in> set jobs.
                  bj_name b = ''aggregate-counter'' \<and> bj_delay b = 1000 \<and>
                  bj_jobId b = job_tenantId (bj_data b) @ '':'' @ job_metric (bj_data b) @ '':''
                                 @ job_customerRef (bj_data b) @ '':'' @ job_periodStart (bj_data b) \<and>
                  (\<exists>e \<in> set (persisted out).
                     bj_data b = \<lparr> job_tenantId = se_tenantId e, job_metric = se_metric e,
                                   job_customerRef = se_customerRef e,
                                   job_periodStart = toISOString
                                     ((se_ts e)\<lparr> utc_day := 1, utc_hours := 0, utc_minutes := 0,
                                                 utc_seconds := 0, utc_millis := 0 \<rparr>) \<rparr>)) \<and>
               ((\<forall>e \<in> set (persisted out). colon_free e) \<longrightarrow>
                  bj_data ` set jobs = event_job ` set (persisted out)))"
    by (rule impI)
  from origin have origin': "\<exists>auth. \<forall>e \<in> set (persisted out). \<exists>j < length (events request).
             \<not> too_far_ahead clock request j \<and> e = stored_at gen env auth request j"
    by (rule exI)
  show ?thesis by (intro conjI none some' origin' new)
qed

text \<open>C7 on three inserted events of two buckets: two jobs.\<close>

theorem C7_witness:
  "submitted
     \<lparr> response =
              \<lparr> accepted = 3, duplicates = 0, requestId = ''req-1'',
                results = [result_of ''evt_org_requests_c1_2025-01-15T10:30:00.000Z'' Accepted,
                           result_of ''evt_org_requests_c1_2025-01-01T00:00:00.000Z'' Accepted,
                           result_of ''evt_org_requests_c2_2025-01-15T10:30:00.000Z'' Accepted],
                errors = None \<rparr>,
            state_after = empty_state
              \<lparr> db_events :=
                  [stored_sample ''org'' ''c1'' mid_january ''evt_org_requests_c1_2025-01-15T10:30:00.000Z'',
                   stored_sample ''org'' ''c1'' new_year_day ''evt_org_requests_c1_2025-01-01T00:00:00.000Z'',
                   stored_sample ''org'' ''c2'' mid_january ''evt_org_requests_c2_2025-01-15T10:30:00.000Z''] \<rparr>,
            persisted =
              [stored_sample ''org'' ''c1'' mid_january ''evt_org_requests_c1_2025-01-15T10:30:00.000Z'',
               stored_sample ''org'' ''c1'' new_year_day ''evt_org_requests_c1_2025-01-01T00:00:00.000Z'',
               stored_sample ''org'' ''c2'' mid_january ''evt_org_requests_c2_2025-01-15T10:30:00.000Z''],
            submitted = Some [january_job ''org'' ''c1'', january_job ''org'' ''c2''] \<rparr>
     = Some [january_job ''org'' ''c1'', january_job ''org'' ''c2''] \<and>
   distinct (map bj_jobId [january_job ''org'' ''c1'', january_job ''org'' ''c2'']) \<and>
   map bj_jobId [january_job ''org'' ''c1'', january_job ''org'' ''c2'']
     = [''org:requests:c1:2025-01-01T00:00:00.000Z'', ''org:requests:c2:2025-01-01T00:00:00.000Z''] \<and>
   map bj_delay [january_job ''org'' ''c1'', january_job ''org'' ''c2''] = [1000, 1000]"
proof -
  let ?ins = "[stored_sample ''org'' ''c1'' mid_january ''evt_org_requests_c1_2025-01-15T10:30:00.000Z'',
               stored_sample ''org'' ''c1'' new_year_day ''evt_org_requests_c1_2025-01-01T00:00:00.000Z'',
               stored_sample ''org'' ''c2'' mid_january ''evt_org_requests_c2_2025-01-15T10:30:00.000Z'']"
  let ?out = "\<lparr> response =
              \<lparr> accepted = 3, duplicates = 0, requestId = ''req-1'',
                results = [result_of ''evt_org_requests_c1_2025-01-15T10:30:00.000Z'' Accepted,
                           result_of ''evt_org_requests_c1_2025-01-01T00:00:00.000Z'' Accepted,
                           result_of ''evt_org_requests_c2_2025-01-15T10:30:00.000Z'' Accepted],
                errors = None \<rparr>,
            state_after = empty_state \<lparr> db_events := ?ins \<rparr>,
            persisted = ?ins,
            submitted = Some [january_job ''org'' ''c1'', january_job ''org'' ''c2''] \<rparr>"
  have q: "aggregationQueue production_env \<noteq> None \<and> persisted ?out \<noteq> []"
    by (simp add: production_flags)
  note th = C7_one_job_per_bucket_when_queue [OF three_events]
  from th[THEN conjunct2, THEN conjunct1, rule_format, OF q]
  obtain jobs where j: "submitted ?out = Some jobs" and d: "distinct (map bj_jobId jobs)"
    by (elim exE conjE)
  from j have "jobs = [january_job ''org'' ''c1'', january_job ''org'' ''c2'']" by simp
  with d have "distinct (map bj_jobId [january_job ''org'' ''c1'', january_job ''org'' ''c2''])"
    by simp
  then show ?thesis by (simp add: january_job_def)
qed

text \<open>
  C7 as stated fails when \<open>createQueue\<close> returns \<open>undefined\<close>: an event is inserted and no
  job is submitted.
\<close>

theorem C7_no_queue_counterexample:
  "aggregationQueue no_queue_env = None \<and>
   ingest sample_generator no_queue_env clock_at_event empty_state
       (request_of ''org'' [usage_event ''t1'' ''c1'' mid_january])
    = Inr \<lparr> response =
              \<lparr> accepted = 1, duplicates = 0, requestId = ''req-1'',
                results = [result_of ''evt_t1_requests_c1_2025-01-15T10:30:00.000Z'' Accepted],
                errors = None \<rparr>,
            state_after = empty_state
              \<lparr> inMemoryIdempotencyKeys := {''evt_t1_requests_c1_2025-01-15T10:30:00.000Z''},
                inMemoryEvents := [stored_sample ''t1'' ''c1'' mid_january
                                     ''evt_t1_requests_c1_2025-01-15T10:30:00.000Z''] \<rparr>,
            persisted = [stored_sample ''t1'' ''c1'' mid_january
                           ''evt_t1_requests_c1_2025-01-15T10:30:00.000Z''],
            submitted = None \<rparr>"
  using bypass_single [of no_queue_env "''t1''"] by (simp add: no_queue_flags)

subsection \<open>Tenant scoping\<close>

text \<open>
  C9, as the code has it. Outside \<open>BYPASS_AUTH\<close>, every persisted event carries the tenant
  id of the request. With authentication enforced (neither \<open>BYPASS_AUTH\<close> nor the test
  bypass) and a resolved tenant, that id is the tenant's organisation, and a batch with
  an event that declares another, non-empty tenant id is answered 403 by the per-event
  check: nothing of it is persisted. Under \<open>BYPASS_AUTH\<close> the check passes whatever
  tenant is declared, and every persisted event carries the tenant id that an event of
  the batch declared.
\<close>

theorem C9_tenant_scoping_when_enforced:
  "(\<not> BYPASS_AUTH env \<longrightarrow>
      (\<forall>out. ingest gen env clock st request = Inr out \<longrightarrow>
         (\<exists>auth. getTenantId env request = Inr auth \<and>
                 (\<forall>e \<in> set (persisted out). se_tenantId e = auth)))) \<and>
   (\<not> BYPASS_AUTH env \<and> \<not> testBypass env \<longrightarrow>
      (\<forall>t. tenant request = Some t \<and> organisationId t \<noteq> [] \<longrightarrow>
         getTenantId env request = Inr (organisationId t) \<and>
         ((\<exists>ev \<in> set (events request). ev_tenantId ev \<noteq> [] \<and> ev_tenantId ev \<noteq> organisationId t) \<longrightarrow>
            ingest gen env clock st request = Inl (Reply403 ''forbidden'')))) \<and>
   (BYPASS_AUTH env \<longrightarrow>
      (\<forall>provided. requireTenantMatch env request provided = None) \<and>
      (\<forall>out. ingest gen env clock st request = Inr out \<longrightarrow>
         (\<forall>e \<in> set (persisted out). \<exists>ev \<in> set (events request). se_tenantId e = ev_tenantId ev)))"
proof -
  have enforced: "(\<not> BYPASS_AUTH env \<longrightarrow>
      (\<forall>out. ingest gen env clock st request = Inr out \<longrightarrow>
         (\<exists>auth. getTenantId env request = Inr auth \<and>
                 (\<forall>e \<in> set (persisted out). se_tenantId e = auth)))) \<and>
   (\<not> BYPASS_AUTH env \<and> \<not> testBypass env \<longrightarrow>
      (\<forall>t. tenant request = Some t \<and> organisationId t \<noteq> [] \<longrightarrow>
         getTenantId env request = Inr (organisationId t) \<and>
         ((\<exists>ev \<in> set (events request). ev_tenantId ev \<noteq> [] \<and> ev_tenantId ev \<noteq> organisationId t) \<longrightarrow>
            ingest gen env clock st request = Inl (Reply403 ''forbidden''))))"
  proof (intro conjI impI allI)
  fix out
  assume nb: "\<not> BYPASS_AUTH env" and r: "ingest gen env clock st request = Inr out"
  from r obtain auth outs p dups where
    auth: "getTenantId env request = Inr auth"
    and loop: "process_events gen env request auth (headerIdempotencyKey (idempotency_key_header request))
       clock 0 (events request) = Inr outs"
    and p: "persist env st (eventsToInsert_of outs) = Inr p"
    and b: "bypass_simulation env (eventsToInsert_of outs) p = (persisted out, dups, state_after out)"
    by (rule ingest_Inr)
  from persisted_props[OF p b] have sub: "set (persisted out) \<subseteq> set (eventsToInsert_of outs)"
    by (simp add: persisted_ok_def)
  have "\<forall>e \<in> set (persisted out). se_tenantId e = auth"
  proof
    fix e assume "e \<in> set (persisted out)"
    with sub have "e \<in> set (eventsToInsert_of outs)" by blast
    from to_insert_origin[OF loop this] obtain j where "e = stored_at gen env auth request j" by blast
    with nb show "se_tenantId e = auth"
      by (simp add: stored_at_def stored_event_def event_at_def force_tenant_def)
  qed
  with auth show "\<exists>auth. getTenantId env request = Inr auth \<and> (\<forall>e \<in> set (persisted out). se_tenantId e = auth)"
    by blast
next
  fix t
  assume enforced: "\<not> BYPASS_AUTH env \<and> \<not> testBypass env"
    and t: "tenant request = Some t \<and> organisationId t \<noteq> []"
  then show auth: "getTenantId env request = Inr (organisationId t)"
    by (simp add: getTenantId_def)
  assume "\<exists>ev \<in> set (events request). ev_tenantId ev \<noteq> [] \<and> ev_tenantId ev \<noteq> organisationId t"
  then have bad: "\<exists>ev \<in> set (events request).
      requireTenantMatch env request (Some (ev_tenantId ev)) = Some (Reply403 ''forbidden'')"
    using enforced t by (auto simp: requireTenantMatch_def)
  have all: "\<forall>ev \<in> set (events request).
      requireTenantMatch env request (Some (ev_tenantId ev)) \<in> {None, Some (Reply403 ''forbidden'')}"
    using enforced t by (auto simp: requireTenantMatch_def)
  from process_events_reject[OF all bad]
  have "process_events gen env request (organisationId t) (headerIdempotencyKey (idempotency_key_header request))
          clock 0 (events request) = Inl (Reply403 ''forbidden'')" .
  with auth show "ingest gen env clock st request = Inl (Reply403 ''forbidden'')"
    by (simp add: ingest_def event_loop_def)
  qed
  have bypass: "BYPASS_AUTH env \<longrightarrow>
      (\<forall>provided. requireTenantMatch env request provided = None) \<and>
      (\<forall>out. ingest gen env clock st request = Inr out \<longrightarrow>
         (\<forall>e \<in> set (persisted out). \<exists>ev \<in> set (events request). se_tenantId e = ev_tenantId ev))"
  proof (intro impI conjI allI ballI)
    fix provided
    assume "BYPASS_AUTH env"
    then show "requireTenantMatch env request provided = None"
      by (simp add: requireTenantMatch_def)
  next
    fix out e
    assume b: "BYPASS_AUTH env" and r: "ingest gen env clock st request = Inr out"
      and e: "e \<in> set (persisted out)"
    from r obtain auth outs p dups where
      loop: "process_events gen env request auth (headerIdempotencyKey (idempotency_key_header request))
         clock 0 (events request) = Inr outs"
      and p: "persist env st (eventsToInsert_of outs) = Inr p"
      and s: "bypass_simulation env (eventsToInsert_of outs) p = (persisted out, dups, state_after out)"
      by (rule ingest_Inr)
    from persisted_props[OF p s] e have "e \<in> set (eventsToInsert_of outs)"
      by (auto simp: persisted_ok_def)
    from to_insert_origin[OF loop this] obtain j where
      j: "j < length (events request)" "e = stored_at gen env auth request j" by blast
    from j(2) b have "se_tenantId e = ev_tenantId (events request ! j)"
      by (simp add: stored_at_def stored_event_def event_at_def force_tenant_def)
    with j(1) show "\<exists>ev \<in> set (events request). se_tenantId e = ev_tenantId ev"
      using nth_mem by blast
  qed
  from enforced[THEN conjunct1] enforced[THEN conjunct2] bypass show ?thesis
    by (intro conjI)
qed

text \<open>C9 on a batch with an event of another tenant, and on a batch of the tenant's own.\<close>

theorem C9_witness:
  "ingest sample_generator production_env clock_at_event empty_state
       (request_of ''org'' [usage_event ''org'' ''c1'' mid_january, usage_event ''other'' ''c2'' mid_january])
     = Inl (Reply403 ''forbidden'') \<and>
   se_tenantId (stored_sample ''org'' ''c1'' mid_january ''evt_org_requests_c1_2025-01-15T10:30:00.000Z'')
     = ''org''"
proof -
  let ?bad = "request_of ''org'' [usage_event ''org'' ''c1'' mid_january, usage_event ''other'' ''c2'' mid_january]"
  let ?good = "request_of ''org'' [usage_event ''org'' ''c1'' mid_january]"
  have t: "tenant ?bad = Some \<lparr> organisationId = ''org'' \<rparr> \<and> organisationId \<lparr> organisationId = ''org'' \<rparr> \<noteq> []"
    by (simp add: request_of_def)
  have ex: "\<exists>ev \<in> set (events ?bad). ev_tenantId ev \<noteq> [] \<and>
              ev_tenantId ev \<noteq> organisationId \<lparr> organisationId = ''org'' \<rparr>"
    by (simp add: request_of_simps usage_event_tenant)
  from C9_tenant_scoping_when_enforced [of production_env sample_generator clock_at_event empty_state ?bad]
       t ex
  have bad: "ingest sample_generator production_env clock_at_event empty_state ?bad = Inl (Reply403 ''forbidden'')"
    using production_flags(1,2) by blast
  from C9_tenant_scoping_when_enforced [of production_env sample_generator clock_at_event empty_state ?good]
       enforced_single production_flags(1)
  have "\<exists>auth. getTenantId production_env ?good = Inr auth \<and>
          se_tenantId (stored_sample ''org'' ''c1'' mid_january
                         ''evt_org_requests_c1_2025-01-15T10:30:00.000Z'') = auth"
    by simp
  then have "se_tenantId (stored_sample ''org'' ''c1'' mid_january
                         ''evt_org_requests_c1_2025-01-15T10:30:00.000Z'') = ''org''"
    by (simp add: production_tenant)
  with bad show ?thesis by simp
qed

text \<open>
  C9 as stated fails in the bypass mode: the tenant check always passes, and an event
  that declares tenant \<open>other-tenant\<close> is persisted under that tenant, which is neither
  the request's tenant nor the id \<open>getTenantId\<close> returns.
\<close>

theorem C9_bypass_counterexample:
  "getTenantId bypass_env (request_of ''org'' [usage_event ''other-tenant'' ''c1'' mid_january])
     = Inr ''00000000-0000-0000-0000-000000000000'' \<and>
   ingest sample_generator bypass_env clock_at_event empty_state
       (request_of ''org'' [usage_event ''other-tenant'' ''c1'' mid_january])
    = Inr \<lparr> response =
              \<lparr> accepted = 1, duplicates = 0, requestId = ''req-1'',
                results = [result_of ''evt_other-tenant_requests_c1_2025-01-15T10:30:00.000Z'' Accepted],
                errors = None \<rparr>,
            state_after = empty_state
              \<lparr> inMemoryIdempotencyKeys := {''evt_other-tenant_requests_c1_2025-01-15T10:30:00.000Z''},
                inMemoryEvents := [stored_sample ''other-tenant'' ''c1'' mid_january
                                     ''evt_other-tenant_requests_c1_2025-01-15T10:30:00.000Z''] \<rparr>,
            persisted = [stored_sample ''other-tenant'' ''c1'' mid_january
                           ''evt_other-tenant_requests_c1_2025-01-15T10:30:00.000Z''],
            submitted = Some [january_job ''other-tenant'' ''c1''] \<rparr> \<and>
   se_tenantId (stored_sample ''other-tenant'' ''c1'' mid_january
                  ''evt_other-tenant_requests_c1_2025-01-15T10:30:00.000Z'') = ''other-tenant''"
  using bypass_single [of bypass_env "''other-tenant''"]
  by (simp add: bypass_flags bypass_tenant stored_sample_def)

end
